theory Spec2Isabelle
  imports Complex_Main "HOL-Library.Word" "HOL-Library.Log_Nat"
begin

section \<open>Values of a decoded property list\<close>

text \<open>
  \<^verbatim>\<open>procreate_meta.py\<close> works on what \<^verbatim>\<open>biplist.readPlistFromString\<close> returns: Python
  values built from \<^verbatim>\<open>None\<close>, \<^verbatim>\<open>bool\<close>, \<^verbatim>\<open>int\<close>, \<^verbatim>\<open>float\<close>, \<^verbatim>\<open>datetime\<close>, \<^verbatim>\<open>bytes\<close>,
  \<^verbatim>\<open>str\<close>, \<^verbatim>\<open>biplist.Uid\<close>, \<^verbatim>\<open>list\<close> and \<^verbatim>\<open>dict\<close>. A dict is an association list with
  distinct string keys, read with \<^term>\<open>map_of\<close>. A float is a finite double, given by the
  rational number it denotes, an infinity or a NaN. A character of a \<^verbatim>\<open>str\<close> is its code
  point, a character of a \<^verbatim>\<open>bytes\<close> its byte: the model holds the strings whose code
  points are below 256.
\<close>

datatype py_error =
    RuntimeError string
  | AttributeError
  | TypeError
  | ValueError
  | OverflowError
  | KeyError
  | IndexError
  | LibraryError string

datatype pyfloat = Finite rat | PosInf | NegInf | NaN

datatype pyval =
    PNone
  | PBool bool
  | PInt int
  | PFloat pyfloat
  | PDate rat
  | PBytes string
  | PStr string
  | PUid nat
  | PList "pyval list"
  | PDict "(string \<times> pyval) list"

type_synonym 'a result = "py_error + 'a"

definition ebind :: "'a result \<Rightarrow> ('a \<Rightarrow> 'b result) \<Rightarrow> 'b result" where
  "ebind m f = (case m of Inl e \<Rightarrow> Inl e | Inr x \<Rightarrow> f x)"

subsection \<open>Truth values, \<^verbatim>\<open>or\<close>, \<^verbatim>\<open>isinstance\<close>\<close>

fun py_truthy :: "pyval \<Rightarrow> bool" where
  "py_truthy PNone = False"
| "py_truthy (PBool b) = b"
| "py_truthy (PInt i) = (i \<noteq> 0)"
| "py_truthy (PFloat f) = (f \<noteq> Finite 0)"
| "py_truthy (PDate t) = True"
| "py_truthy (PBytes s) = (s \<noteq> [])"
| "py_truthy (PStr s) = (s \<noteq> [])"
| "py_truthy (PUid n) = True"
| "py_truthy (PList xs) = (xs \<noteq> [])"
| "py_truthy (PDict d) = (d \<noteq> [])"

definition py_or :: "pyval \<Rightarrow> pyval \<Rightarrow> pyval" where
  "py_or a b = (if py_truthy a then a else b)"

fun is_dict :: "pyval \<Rightarrow> bool" where
  "is_dict (PDict d) = True"
| "is_dict v = False"

fun is_str :: "pyval \<Rightarrow> bool" where
  "is_str (PStr s) = True"
| "is_str v = False"

subsection \<open>Dictionaries and subscripts\<close>

text \<open>\<^verbatim>\<open>d.get(k)\<close> and \<^verbatim>\<open>d.get(k, default)\<close> on a dict.\<close>

definition dict_get_default :: "(string \<times> pyval) list \<Rightarrow> string \<Rightarrow> pyval \<Rightarrow> pyval" where
  "dict_get_default d k dflt = (case map_of d k of Some v \<Rightarrow> v | None \<Rightarrow> dflt)"

definition dict_get :: "(string \<times> pyval) list \<Rightarrow> string \<Rightarrow> pyval" where
  "dict_get d k = dict_get_default d k PNone"

text \<open>What a value gives as a sequence index (\<^verbatim>\<open>__index__\<close>): ints and bools only.\<close>

fun py_index :: "pyval \<Rightarrow> int option" where
  "py_index (PInt i) = Some i"
| "py_index (PBool b) = Some (if b then 1 else 0)"
| "py_index v = None"

text \<open>\<^verbatim>\<open>xs[i]\<close> on a sequence: a negative index counts from the end, an index out of
  range raises \<^verbatim>\<open>IndexError\<close>.\<close>

definition seq_get :: "'a list \<Rightarrow> int \<Rightarrow> 'a result" where
  "seq_get xs i =
     (if 0 \<le> i then
        (if nat i < length xs then Inr (xs ! nat i) else Inl IndexError)
      else
        (if nat (- i) \<le> length xs then Inr (xs ! (length xs - nat (- i)))
         else Inl IndexError))"

text \<open>\<^verbatim>\<open>obj[key]\<close>. A dict of string keys raises \<^verbatim>\<open>KeyError\<close> on a missing key and
  \<^verbatim>\<open>TypeError\<close> on an unhashable one; values with no subscript raise \<^verbatim>\<open>TypeError\<close>.\<close>

fun py_getitem :: "pyval \<Rightarrow> pyval \<Rightarrow> pyval result" where
  "py_getitem (PDict d) k =
     (case k of
        PStr s \<Rightarrow> (case map_of d s of Some v \<Rightarrow> Inr v | None \<Rightarrow> Inl KeyError)
      | PList xs \<Rightarrow> Inl TypeError
      | PDict e \<Rightarrow> Inl TypeError
      | _ \<Rightarrow> Inl KeyError)"
| "py_getitem (PList xs) k =
     (case py_index k of None \<Rightarrow> Inl TypeError | Some i \<Rightarrow> seq_get xs i)"
| "py_getitem (PStr s) k =
     (case py_index k of None \<Rightarrow> Inl TypeError
      | Some i \<Rightarrow> ebind (seq_get s i) (\<lambda>c. Inr (PStr [c])))"
| "py_getitem (PBytes s) k =
     (case py_index k of None \<Rightarrow> Inl TypeError
      | Some i \<Rightarrow> ebind (seq_get s i) (\<lambda>c. Inr (PInt (of_char c))))"
| "py_getitem v k = Inl TypeError"

text \<open>\<^verbatim>\<open>len(obj)\<close>.\<close>

fun py_len :: "pyval \<Rightarrow> int result" where
  "py_len (PList xs) = Inr (int (length xs))"
| "py_len (PDict d) = Inr (int (length d))"
| "py_len (PStr s) = Inr (int (length s))"
| "py_len (PBytes s) = Inr (int (length s))"
| "py_len v = Inl TypeError"

subsection \<open>Strings\<close>

text \<open>White space, among the code points below 256. \<^verbatim>\<open>str.strip()\<close> strips what
  \<^verbatim>\<open>str.isspace\<close> accepts: tab, line feed, vertical tab, form feed, carriage return, the
  four separators 28 to 31, the space, the next-line character 133 and the no-break space
  160. \<^verbatim>\<open>int\<close> and \<^verbatim>\<open>float\<close> skip less around a number: on a \<^verbatim>\<open>str\<close> not the separators 28 to
  31, and on \<^verbatim>\<open>bytes\<close> neither those nor 133 and 160.\<close>

definition is_space :: "char \<Rightarrow> bool" where
  "is_space c = (of_char c \<in> {9, 10, 11, 12, 13, 28, 29, 30, 31, 32, 133, 160 :: nat})"

definition is_num_space :: "char \<Rightarrow> bool" where
  "is_num_space c = (of_char c \<in> {9, 10, 11, 12, 13, 32, 133, 160 :: nat})"

definition is_ascii_space :: "char \<Rightarrow> bool" where
  "is_ascii_space c = (of_char c \<in> {9, 10, 11, 12, 13, 32 :: nat})"

definition strip_chars :: "(char \<Rightarrow> bool) \<Rightarrow> string \<Rightarrow> string" where
  "strip_chars p s = rev (dropWhile p (rev (dropWhile p s)))"

text \<open>\<^verbatim>\<open>s.strip()\<close> and \<^verbatim>\<open>s.strip("{}")\<close>.\<close>

definition py_strip :: "string \<Rightarrow> string" where
  "py_strip s = strip_chars is_space s"

definition strip_braces :: "string \<Rightarrow> string" where
  "strip_braces s = strip_chars (\<lambda>c. c \<in> set ''{}'') s"

text \<open>\<^verbatim>\<open>s.split(",")\<close>: one more part than there are separators.\<close>

fun split_on :: "char \<Rightarrow> string \<Rightarrow> string list" where
  "split_on sep [] = [[]]"
| "split_on sep (c # cs) =
     (if c = sep then [] # split_on sep cs
      else (case split_on sep cs of p # ps \<Rightarrow> (c # p) # ps | [] \<Rightarrow> [[c]]))"

definition ascii_lower :: "char \<Rightarrow> char" where
  "ascii_lower c =
     (case map_of (zip ''ABCDEFGHIJKLMNOPQRSTUVWXYZ'' ''abcdefghijklmnopqrstuvwxyz'') c of
        Some l \<Rightarrow> l
      | None \<Rightarrow> c)"

definition digit_val :: "char \<Rightarrow> int option" where
  "digit_val c =
     (let n = of_char c :: int in if 48 \<le> n \<and> n \<le> 57 then Some (n - 48) else None)"

text \<open>The digits of a number as \<^verbatim>\<open>int\<close> and \<^verbatim>\<open>float\<close> read them: decimal digits, with
  single underscores between digits. \<open>digits_acc v n s\<close> goes on after a digit, from the
  value \<open>v\<close> of the \<open>n\<close> digits read so far; the result is the value, the number of digits
  and what is left of the string.\<close>

fun digits_acc :: "int \<Rightarrow> nat \<Rightarrow> string \<Rightarrow> int \<times> nat \<times> string" where
  "digits_acc v n [] = (v, n, [])"
| "digits_acc v n [c] =
     (case digit_val c of Some k \<Rightarrow> (10 * v + k, Suc n, []) | None \<Rightarrow> (v, n, [c]))"
| "digits_acc v n (c # d # ds) =
     (case digit_val c of
        Some k \<Rightarrow> digits_acc (10 * v + k) (Suc n) (d # ds)
      | None \<Rightarrow>
          (if c = CHR ''_'' then
             (case digit_val d of
                Some k \<Rightarrow> digits_acc (10 * v + k) (Suc n) ds
              | None \<Rightarrow> (v, n, c # d # ds))
           else (v, n, c # d # ds)))"

definition digitpart :: "string \<Rightarrow> (int \<times> nat \<times> string) option" where
  "digitpart s =
     (case s of
        [] \<Rightarrow> None
      | c # cs \<Rightarrow> (case digit_val c of Some k \<Rightarrow> Some (digits_acc k 1 cs) | None \<Rightarrow> None))"

text \<open>An optional sign: whether it is a minus, and the rest.\<close>

fun take_sign :: "string \<Rightarrow> bool \<times> string" where
  "take_sign [] = (False, [])"
| "take_sign (c # cs) =
     (if c = CHR ''-'' then (True, cs) else if c = CHR ''+'' then (False, cs)
      else (False, c # cs))"

text \<open>\<^verbatim>\<open>int(s)\<close> on a \<^verbatim>\<open>str\<close> and on \<^verbatim>\<open>bytes\<close>: white space around, a sign, digits.
  More than 4300 digits raise \<^verbatim>\<open>ValueError\<close> (the default limit of CPython 3.11 and
  later).\<close>

definition int_literal :: "string \<Rightarrow> int result" where
  "int_literal s =
     (let (neg, t) = take_sign s in
      case digitpart t of
        Some (v, n, []) \<Rightarrow>
          if 4300 < n then Inl ValueError else Inr (if neg then - v else v)
      | _ \<Rightarrow> Inl ValueError)"

definition int_of_str :: "string \<Rightarrow> int result" where
  "int_of_str s = int_literal (strip_chars is_num_space s)"

definition int_of_bytes :: "string \<Rightarrow> int result" where
  "int_of_bytes s = int_literal (strip_chars is_ascii_space s)"

subsection \<open>Floats\<close>

text \<open>Rounding a rational number to the nearest double, ties to the even mantissa:
  a double has a 53-bit mantissa, exponents from \<open>- 1022\<close> to \<open>1023\<close> (below, the spacing
  stays that of the subnormal numbers), and what rounds to \<open>2 ^ 1024\<close> or more is infinite.\<close>

definition pow2 :: "int \<Rightarrow> rat" where
  "pow2 e = (if 0 \<le> e then 2 ^ nat e else 1 / 2 ^ nat (- e))"

definition ilog2 :: "rat \<Rightarrow> int" where
  "ilog2 a =
     (let (n, d) = quotient_of a;
          e0 = bitlen n - bitlen d
      in if pow2 e0 \<le> a then e0 else e0 - 1)"

definition round_half_even :: "rat \<Rightarrow> int" where
  "round_half_even q =
     (let f = \<lfloor>q\<rfloor>; r = q - of_int f
      in if r < 1 / 2 then f else if 1 / 2 < r then f + 1
         else if even f then f else f + 1)"

definition round_double :: "rat \<Rightarrow> pyfloat" where
  "round_double q =
     (if q = 0 then Finite 0
      else
        let a = \<bar>q\<bar>;
            e = max (ilog2 a) (- 1022);
            u = pow2 (e - 52);
            r = of_int (round_half_even (a / u)) * u
        in if pow2 1024 \<le> r then (if 0 < q then PosInf else NegInf)
           else Finite (if 0 < q then r else - r))"

fun float_add :: "pyfloat \<Rightarrow> pyfloat \<Rightarrow> pyfloat" where
  "float_add (Finite a) (Finite b) = round_double (a + b)"
| "float_add NaN y = NaN"
| "float_add x NaN = NaN"
| "float_add PosInf NegInf = NaN"
| "float_add NegInf PosInf = NaN"
| "float_add PosInf y = PosInf"
| "float_add NegInf y = NegInf"
| "float_add x PosInf = PosInf"
| "float_add x NegInf = NegInf"

text \<open>\<^verbatim>\<open>float(s)\<close> on a string: white space around, a sign, then \<^verbatim>\<open>inf\<close>, \<^verbatim>\<open>infinity\<close> or
  \<^verbatim>\<open>nan\<close> in any case, or digits with an optional point and an optional exponent.\<close>

definition exponent_part :: "rat \<Rightarrow> string \<Rightarrow> rat option" where
  "exponent_part m s =
     (case s of
        [] \<Rightarrow> Some m
      | c # cs \<Rightarrow>
          (if ascii_lower c = CHR ''e'' then
             (let (neg, t) = take_sign cs in
              case digitpart t of
                Some (v, n, []) \<Rightarrow> Some (if neg then m / 10 ^ nat v else m * 10 ^ nat v)
              | _ \<Rightarrow> None)
           else None))"

definition floatnumber :: "string \<Rightarrow> rat option" where
  "floatnumber s =
     (case digitpart s of
        Some (ip, n, r1) \<Rightarrow>
          (case r1 of
             c # r2 \<Rightarrow>
               (if c = CHR ''.'' then
                  (case digitpart r2 of
                     Some (fp, k, r3) \<Rightarrow> exponent_part (of_int ip + of_int fp / 10 ^ k) r3
                   | None \<Rightarrow> exponent_part (of_int ip) r2)
                else exponent_part (of_int ip) r1)
           | [] \<Rightarrow> Some (of_int ip))
      | None \<Rightarrow>
          (case s of
             c # r2 \<Rightarrow>
               (if c = CHR ''.'' then
                  (case digitpart r2 of
                     Some (fp, k, r3) \<Rightarrow> exponent_part (of_int fp / 10 ^ k) r3
                   | None \<Rightarrow> None)
                else None)
           | [] \<Rightarrow> None))"

definition float_of_str :: "string \<Rightarrow> pyfloat result" where
  "float_of_str s =
     (let (neg, t) = take_sign (strip_chars is_num_space s); l = map ascii_lower t in
      if l = ''inf'' \<or> l = ''infinity'' then Inr (if neg then NegInf else PosInf)
      else if l = ''nan'' then Inr NaN
      else (case floatnumber t of
              Some q \<Rightarrow> Inr (round_double (if neg then - q else q))
            | None \<Rightarrow> Inl ValueError))"

subsection \<open>\<^verbatim>\<open>int(x)\<close> and \<^verbatim>\<open>x + n\<close>\<close>

text \<open>\<^verbatim>\<open>int\<close> of a float truncates toward zero; a NaN raises \<^verbatim>\<open>ValueError\<close>, an infinity
  \<^verbatim>\<open>OverflowError\<close>.\<close>

definition py_trunc :: "rat \<Rightarrow> int" where
  "py_trunc q = (if 0 \<le> q then \<lfloor>q\<rfloor> else \<lceil>q\<rceil>)"

fun int_of_float :: "pyfloat \<Rightarrow> int result" where
  "int_of_float (Finite q) = Inr (py_trunc q)"
| "int_of_float NaN = Inl ValueError"
| "int_of_float PosInf = Inl OverflowError"
| "int_of_float NegInf = Inl OverflowError"

fun py_int :: "pyval \<Rightarrow> int result" where
  "py_int (PInt i) = Inr i"
| "py_int (PBool b) = Inr (if b then 1 else 0)"
| "py_int (PFloat f) = int_of_float f"
| "py_int (PStr s) = int_of_str s"
| "py_int (PBytes s) = int_of_bytes s"
| "py_int (PUid n) = Inr (int n)"
| "py_int v = Inl TypeError"

text \<open>\<^verbatim>\<open>val + n\<close> for an int \<open>n\<close>: exact on ints and bools, the sum of doubles on a
  float (the int converted first), \<^verbatim>\<open>TypeError\<close> on everything else.\<close>

fun py_add_int :: "pyval \<Rightarrow> int \<Rightarrow> pyval result" where
  "py_add_int (PInt i) n = Inr (PInt (i + n))"
| "py_add_int (PBool b) n = Inr (PInt ((if b then 1 else 0) + n))"
| "py_add_int (PFloat f) n =
     (case round_double (of_int n) of
        Finite r \<Rightarrow> Inr (PFloat (float_add f (Finite r)))
      | _ \<Rightarrow> Inl OverflowError)"
| "py_add_int v n = Inl TypeError"

section \<open>Helpers: \<^verbatim>\<open>cfuid\<close> and \<^verbatim>\<open>resolve\<close>\<close>

text \<open>
  \<^verbatim>\<open>
  def cfuid(obj):
      if isinstance(obj, dict) and "CF$UID" in obj:
          return obj["CF$UID"]
      if hasattr(obj, '__class__') and obj.__class__.__name__ == 'Uid':
          return int(obj)
      if isinstance(obj, biplist.Uid):
          return int(obj)
      return None
  \<close>
\<close>

fun cfuid :: "pyval \<Rightarrow> pyval" where
  "cfuid (PDict d) = (case map_of d ''CF$UID'' of Some v \<Rightarrow> v | None \<Rightarrow> PNone)"
| "cfuid (PUid n) = PInt (int n)"
| "cfuid v = PNone"

text \<open>
  \<^verbatim>\<open>
  def resolve(objects, value):
      uid = cfuid(value)
      return objects[uid] if uid is not None else value
  \<close>
\<close>

definition resolve :: "pyval \<Rightarrow> pyval \<Rightarrow> pyval result" where
  "resolve objects v =
     (let uid = cfuid v in if uid \<noteq> PNone then py_getitem objects uid else Inr v)"

section \<open>The container and the libraries\<close>

text \<open>
  A \<^verbatim>\<open>zipfile.ZipFile\<close> is read through its entries by name; an entry has the stored
  \<^verbatim>\<open>date_time\<close> tuple and its bytes. What the code calls outside itself is a parameter:
  \<^item> \<open>readPlistFromString\<close> is \<^verbatim>\<open>biplist.readPlistFromString\<close>;
  \<^item> \<open>timestamp\<close> is \<^verbatim>\<open>lambda t: int(datetime.datetime(*t).timestamp())\<close>, which depends on
    the local time zone and raises on a tuple that is no date;
  \<^item> \<open>open_zip\<close> is \<^verbatim>\<open>zipfile.ZipFile(path, "r")\<close> on the bytes of the file;
  \<^item> \<open>image_verify\<close> is \<^verbatim>\<open>Image.open(p).verify()\<close> on the bytes of the file at \<open>p\<close>: the
    exception it raises, if any;
  \<^item> \<open>now\<close> is \<^verbatim>\<open>int(time.time())\<close>, \<open>temp_dir\<close> is \<^verbatim>\<open>TEMP_DIR\<close>.
\<close>

type_synonym date_time = "int \<times> int \<times> int \<times> int \<times> int \<times> int"

record zip_info =
  date_time :: date_time
  file_data :: string

type_synonym zipfile = "string \<rightharpoonup> zip_info"

record env =
  readPlistFromString :: "string \<Rightarrow> pyval result"
  timestamp :: "date_time \<Rightarrow> int result"
  open_zip :: "string \<Rightarrow> zipfile result"
  image_verify :: "string \<Rightarrow> py_error option"
  now :: int
  temp_dir :: string

text \<open>\<^verbatim>\<open>zf.getinfo(name)\<close> and \<^verbatim>\<open>zf.read(name)\<close> raise \<^verbatim>\<open>KeyError\<close> on a missing entry.\<close>

definition getinfo :: "zipfile \<Rightarrow> string \<Rightarrow> zip_info result" where
  "getinfo zf name = (case zf name of None \<Rightarrow> Inl KeyError | Some info \<Rightarrow> Inr info)"

definition zip_read :: "zipfile \<Rightarrow> string \<Rightarrow> string result" where
  "zip_read zf name = ebind (getinfo zf name) (\<lambda>info. Inr (file_data info))"

section \<open>\<^verbatim>\<open>parse_document_archive\<close>\<close>

text \<open>The result \<^verbatim>\<open>meta\<close> is a dict from field names to values; a field that was never
  assigned is not in it.\<close>

type_synonym meta = "string \<rightharpoonup> pyval"

subsection \<open>Canvas size\<close>

text \<open>
  \<^verbatim>\<open>
  canvas = resolve(objects, root.get("canvasSize") or root.get("size"))
  if isinstance(canvas, dict):
      meta["canvas_width"] = int(canvas.get("width", 0))
      meta["canvas_height"] = int(canvas.get("height", 0))
  elif isinstance(canvas, str):
      try:
          clean = canvas.strip("{}")
          parts = [p.strip() for p in clean.split(",")]
          if len(parts) == 2:
              meta["canvas_width"] = int(float(parts[0]))
              meta["canvas_height"] = int(float(parts[1]))
      except:
          meta["canvas_width"] = 0
          meta["canvas_height"] = 0
  else:
      meta["canvas_width"] = 0
      meta["canvas_height"] = 0
  \<close>
  The body of the \<^verbatim>\<open>try\<close> gives the dict as it stands when the body ends and the exception
  that ended it, if one did.
\<close>

definition canvas_try :: "string \<Rightarrow> meta \<Rightarrow> meta \<times> py_error option" where
  "canvas_try canvas meta =
     (let clean = strip_braces canvas;
          parts = map py_strip (split_on CHR '','' clean)
      in if length parts = 2 then
           (case ebind (float_of_str (parts ! 0)) int_of_float of
              Inl e \<Rightarrow> (meta, Some e)
            | Inr w \<Rightarrow>
                (case ebind (float_of_str (parts ! 1)) int_of_float of
                   Inl e \<Rightarrow> (meta(''canvas_width'' \<mapsto> PInt w), Some e)
                 | Inr h \<Rightarrow>
                     (meta(''canvas_width'' \<mapsto> PInt w, ''canvas_height'' \<mapsto> PInt h), None)))
         else (meta, None))"

definition canvas_zero :: "meta \<Rightarrow> meta" where
  "canvas_zero meta = meta(''canvas_width'' \<mapsto> PInt 0, ''canvas_height'' \<mapsto> PInt 0)"

definition meta_canvas :: "pyval \<Rightarrow> (string \<times> pyval) list \<Rightarrow> meta \<Rightarrow> meta result" where
  "meta_canvas objects rootd meta =
     ebind (resolve objects (py_or (dict_get rootd ''canvasSize'') (dict_get rootd ''size'')))
       (\<lambda>canvas.
          case canvas of
            PDict c \<Rightarrow>
              ebind (py_int (dict_get_default c ''width'' (PInt 0))) (\<lambda>w.
              ebind (py_int (dict_get_default c ''height'' (PInt 0))) (\<lambda>h.
                Inr (meta(''canvas_width'' \<mapsto> PInt w, ''canvas_height'' \<mapsto> PInt h))))
          | PStr s \<Rightarrow>
              (case canvas_try s meta of
                 (m, None) \<Rightarrow> Inr m
               | (m, Some e) \<Rightarrow> Inr (canvas_zero m))
          | _ \<Rightarrow> Inr (canvas_zero meta))"

subsection \<open>DPI, orientation, layer count, time spent\<close>

text \<open>\<^verbatim>\<open>int(x) if x else 0\<close>.\<close>

definition int_if_truthy :: "pyval \<Rightarrow> int result" where
  "int_if_truthy x = (if py_truthy x then py_int x else Inr 0)"

text \<open>
  \<^verbatim>\<open>
  dpi = root.get("dpi") or root.get("SilicaDocumentArchiveDPIKey")
  meta["dpi"] = int(dpi) if dpi else 0
  \<close>
\<close>

definition dpi_of :: "(string \<times> pyval) list \<Rightarrow> int result" where
  "dpi_of rootd =
     (let dpi = py_or (dict_get rootd ''dpi'') (dict_get rootd ''SilicaDocumentArchiveDPIKey'')
      in int_if_truthy dpi)"

definition meta_dpi :: "(string \<times> pyval) list \<Rightarrow> meta \<Rightarrow> meta result" where
  "meta_dpi rootd meta = ebind (dpi_of rootd) (\<lambda>i. Inr (meta(''dpi'' \<mapsto> PInt i)))"

text \<open>
  \<^verbatim>\<open>
  orientation_map = {1: "portrait", 2: "landscape"}
  meta["orientation"] = orientation_map.get(root.get("orientation"), "unknown")
  \<close>
  The lookup hashes its key, so a list or a dict raises \<^verbatim>\<open>TypeError\<close>; a bool or a float
  equal to 1 or 2 finds the entry of that int.
\<close>

fun eq_int :: "pyval \<Rightarrow> int \<Rightarrow> bool" where
  "eq_int (PInt i) n = (i = n)"
| "eq_int (PBool b) n = ((if b then 1 else 0) = n)"
| "eq_int (PFloat (Finite q)) n = (q = of_int n)"
| "eq_int v n = False"

fun hashable :: "pyval \<Rightarrow> bool" where
  "hashable (PList xs) = False"
| "hashable (PDict d) = False"
| "hashable v = True"

definition orientation_map_get :: "pyval \<Rightarrow> pyval result" where
  "orientation_map_get k =
     (if \<not> hashable k then Inl TypeError
      else if eq_int k 1 then Inr (PStr ''portrait'')
      else if eq_int k 2 then Inr (PStr ''landscape'')
      else Inr (PStr ''unknown''))"

definition orientation_of :: "(string \<times> pyval) list \<Rightarrow> pyval result" where
  "orientation_of rootd = orientation_map_get (dict_get rootd ''orientation'')"

definition meta_orientation :: "(string \<times> pyval) list \<Rightarrow> meta \<Rightarrow> meta result" where
  "meta_orientation rootd meta =
     ebind (orientation_of rootd) (\<lambda>v. Inr (meta(''orientation'' \<mapsto> v)))"

text \<open>
  \<^verbatim>\<open>
  layer_count = root.get("layerCount")
  if layer_count is None:
      layers_ref = root.get("layers")
      if layers_ref:
          layers = resolve(objects, layers_ref)
          if isinstance(layers, dict) and "NS.objects" in layers:
              layer_count = len(layers["NS.objects"])
          elif isinstance(layers, list):
              layer_count = len(layers)
  meta["layer_count"] = int(layer_count) if layer_count else 0
  \<close>
\<close>

definition count_layers :: "pyval \<Rightarrow> pyval result" where
  "count_layers layers =
     (case layers of
        PDict l \<Rightarrow>
          (case map_of l ''NS.objects'' of
             Some v \<Rightarrow> ebind (py_len v) (\<lambda>n. Inr (PInt n))
           | None \<Rightarrow> Inr PNone)
      | PList xs \<Rightarrow> Inr (PInt (int (length xs)))
      | _ \<Rightarrow> Inr PNone)"

definition layer_count_of :: "pyval \<Rightarrow> (string \<times> pyval) list \<Rightarrow> int result" where
  "layer_count_of objects rootd =
     (let layer_count = dict_get rootd ''layerCount'' in
      ebind
        (if layer_count = PNone then
           (let layers_ref = dict_get rootd ''layers'' in
            if py_truthy layers_ref then ebind (resolve objects layers_ref) count_layers
            else Inr layer_count)
         else Inr layer_count)
        int_if_truthy)"

definition meta_layer_count :: "pyval \<Rightarrow> (string \<times> pyval) list \<Rightarrow> meta \<Rightarrow> meta result" where
  "meta_layer_count objects rootd meta =
     ebind (layer_count_of objects rootd) (\<lambda>i. Inr (meta(''layer_count'' \<mapsto> PInt i)))"

text \<open>
  \<^verbatim>\<open>
  time_spent = root.get("timeSpentDrawing") or root.get("SilicaDocumentTrackedTimeKey")
  meta["time_spent"] = int(time_spent) if time_spent else 0
  \<close>
\<close>

definition time_spent_of :: "(string \<times> pyval) list \<Rightarrow> int result" where
  "time_spent_of rootd =
     (let time_spent =
            py_or (dict_get rootd ''timeSpentDrawing'')
              (dict_get rootd ''SilicaDocumentTrackedTimeKey'')
      in int_if_truthy time_spent)"

definition meta_time_spent :: "(string \<times> pyval) list \<Rightarrow> meta \<Rightarrow> meta result" where
  "meta_time_spent rootd meta =
     ebind (time_spent_of rootd) (\<lambda>i. Inr (meta(''time_spent'' \<mapsto> PInt i)))"

subsection \<open>Colour profile and version\<close>

text \<open>
  \<^verbatim>\<open>
  color_profile = None
  color_ref = root.get("colorProfile")
  if color_ref:
      color = resolve(objects, color_ref)
      if isinstance(color, dict):
          icc_name_ref = color.get("SiColorProfileArchiveICCNameKey")
          if icc_name_ref is not None:
              resolved_name = resolve(objects, icc_name_ref)
              if isinstance(resolved_name, str):
                  color_profile = resolved_name
          if not color_profile:
              color_profile = color.get("name") or color.get("iccName")
      elif isinstance(color, str):
          color_profile = color
  meta["color_profile"] = color_profile
  \<close>
\<close>

definition icc_name :: "pyval \<Rightarrow> (string \<times> pyval) list \<Rightarrow> pyval result" where
  "icc_name objects color =
     (let icc_name_ref = dict_get color ''SiColorProfileArchiveICCNameKey'' in
      if icc_name_ref \<noteq> PNone then
        ebind (resolve objects icc_name_ref)
          (\<lambda>resolved_name. Inr (if is_str resolved_name then resolved_name else PNone))
      else Inr PNone)"

definition color_profile_of :: "pyval \<Rightarrow> (string \<times> pyval) list \<Rightarrow> pyval result" where
  "color_profile_of objects rootd =
     (let color_ref = dict_get rootd ''colorProfile'' in
      if py_truthy color_ref then
        ebind (resolve objects color_ref) (\<lambda>color.
          case color of
            PDict c \<Rightarrow>
              ebind (icc_name objects c) (\<lambda>color_profile.
                Inr (if \<not> py_truthy color_profile
                     then py_or (dict_get c ''name'') (dict_get c ''iccName'')
                     else color_profile))
          | PStr s \<Rightarrow> Inr color
          | _ \<Rightarrow> Inr PNone)
      else Inr PNone)"

definition meta_color_profile :: "pyval \<Rightarrow> (string \<times> pyval) list \<Rightarrow> meta \<Rightarrow> meta result" where
  "meta_color_profile objects rootd meta =
     ebind (color_profile_of objects rootd)
       (\<lambda>color_profile. Inr (meta(''color_profile'' \<mapsto> color_profile)))"

text \<open>\<^verbatim>\<open>meta["procreate_version"] = root.get("appVersion") or root.get("version")\<close>\<close>

definition procreate_version_of :: "(string \<times> pyval) list \<Rightarrow> pyval" where
  "procreate_version_of rootd = py_or (dict_get rootd ''appVersion'') (dict_get rootd ''version'')"

definition meta_procreate_version :: "(string \<times> pyval) list \<Rightarrow> meta \<Rightarrow> meta" where
  "meta_procreate_version rootd meta =
     meta(''procreate_version'' \<mapsto> procreate_version_of rootd)"

subsection \<open>Dates\<close>

text \<open>
  \<^verbatim>\<open>
  def apple_time_to_unix(val: Optional[float]) -> Optional[int]:
      if val is None:
          return None
      return int(val + 978307200)
  \<close>
\<close>

definition apple_time_to_unix :: "pyval \<Rightarrow> pyval result" where
  "apple_time_to_unix val =
     (if val = PNone then Inr PNone
      else ebind (py_add_int val 978307200) (\<lambda>s. ebind (py_int s) (\<lambda>i. Inr (PInt i))))"

text \<open>
  \<^verbatim>\<open>
  created = (root.get("creationDate") or
             root.get("SilicaDocumentArchiveCreationDateKey") or
             root.get("documentCreationDate"))
  modified = (root.get("lastModifiedDate") or
              root.get("SilicaDocumentArchiveModificationDateKey") or
              root.get("modificationDate"))
  meta["created_at"] = apple_time_to_unix(created)
  meta["updated_at"] = apple_time_to_unix(modified)
  \<close>
\<close>

definition created_of :: "(string \<times> pyval) list \<Rightarrow> pyval" where
  "created_of rootd =
     py_or (py_or (dict_get rootd ''creationDate'')
                  (dict_get rootd ''SilicaDocumentArchiveCreationDateKey''))
           (dict_get rootd ''documentCreationDate'')"

definition modified_of :: "(string \<times> pyval) list \<Rightarrow> pyval" where
  "modified_of rootd =
     py_or (py_or (dict_get rootd ''lastModifiedDate'')
                  (dict_get rootd ''SilicaDocumentArchiveModificationDateKey''))
           (dict_get rootd ''modificationDate'')"

definition meta_dates :: "(string \<times> pyval) list \<Rightarrow> meta \<Rightarrow> meta result" where
  "meta_dates rootd meta =
     ebind (apple_time_to_unix (created_of rootd)) (\<lambda>c.
     ebind (apple_time_to_unix (modified_of rootd)) (\<lambda>u.
       Inr (meta(''created_at'' \<mapsto> c, ''updated_at'' \<mapsto> u))))"

text \<open>
  \<^verbatim>\<open>
  if zf is not None and (meta["created_at"] is None or meta["updated_at"] is None):
      zip_timestamp = None
      try:
          info = zf.getinfo("QuickLook/Thumbnail.png")
          dt = datetime.datetime(*info.date_time)
          zip_timestamp = int(dt.timestamp())
      except KeyError:
          pass
      if zip_timestamp is None:
          try:
              info = zf.getinfo("Document.archive")
              dt = datetime.datetime(*info.date_time)
              zip_timestamp = int(dt.timestamp())
          except:
              pass
      if zip_timestamp is not None:
          if meta["created_at"] is None:
              meta["created_at"] = zip_timestamp
          if meta["updated_at"] is None:
              meta["updated_at"] = zip_timestamp
  \<close>
\<close>

definition entry_timestamp :: "env \<Rightarrow> zipfile \<Rightarrow> string \<Rightarrow> int result" where
  "entry_timestamp ev zf name = ebind (getinfo zf name) (\<lambda>info. timestamp ev (date_time info))"

definition zip_timestamp :: "env \<Rightarrow> zipfile \<Rightarrow> pyval result" where
  "zip_timestamp ev zf =
     ebind
       (case entry_timestamp ev zf ''QuickLook/Thumbnail.png'' of
          Inr t \<Rightarrow> Inr (PInt t)
        | Inl e \<Rightarrow> if e = KeyError then Inr PNone else Inl e)
       (\<lambda>ts.
          if ts = PNone then
            (case entry_timestamp ev zf ''Document.archive'' of
               Inr t \<Rightarrow> Inr (PInt t)
             | Inl e \<Rightarrow> Inr PNone)
          else Inr ts)"

definition fill_none :: "string \<Rightarrow> pyval \<Rightarrow> meta \<Rightarrow> meta" where
  "fill_none k ts meta = (if meta k = Some PNone then meta(k \<mapsto> ts) else meta)"

definition meta_zip_fallback :: "env \<Rightarrow> zipfile option \<Rightarrow> meta \<Rightarrow> meta result" where
  "meta_zip_fallback ev zf meta =
     (case zf of
        None \<Rightarrow> Inr meta
      | Some z \<Rightarrow>
          if meta ''created_at'' = Some PNone \<or> meta ''updated_at'' = Some PNone then
            ebind (zip_timestamp ev z) (\<lambda>ts.
              if ts \<noteq> PNone
              then Inr (fill_none ''updated_at'' ts (fill_none ''created_at'' ts meta))
              else Inr meta)
          else Inr meta)"

text \<open>
  \<^verbatim>\<open>
  if meta["created_at"] is not None and meta["updated_at"] is not None:
      if meta["created_at"] > meta["updated_at"]:
          meta["created_at"] = meta["updated_at"]
  \<close>
  Both fields hold \<^verbatim>\<open>None\<close> or an int here.
\<close>

definition clamp_dates :: "meta \<Rightarrow> meta" where
  "clamp_dates meta =
     (case (meta ''created_at'', meta ''updated_at'') of
        (Some (PInt c), Some (PInt u)) \<Rightarrow>
          if u < c then meta(''created_at'' \<mapsto> PInt u) else meta
      | _ \<Rightarrow> meta)"

subsection \<open>The whole function\<close>

text \<open>The statements after \<^verbatim>\<open>meta = {}\<close>, on the resolved root: first the ones that
  resolve every field, in the order of the source, then the clamp of the dates. Every one
  of them starts with \<^verbatim>\<open>root.get\<close>, which only a dict has: on any other root the first
  raises \<^verbatim>\<open>AttributeError\<close>.\<close>

definition resolved_fields ::
    "env \<Rightarrow> pyval \<Rightarrow> (string \<times> pyval) list \<Rightarrow> zipfile option \<Rightarrow> meta result" where
  "resolved_fields ev objects rootd zf =
     ebind (meta_canvas objects rootd Map.empty) (\<lambda>m.
     ebind (meta_dpi rootd m) (\<lambda>m.
     ebind (meta_orientation rootd m) (\<lambda>m.
     ebind (meta_layer_count objects rootd m) (\<lambda>m.
     ebind (meta_time_spent rootd m) (\<lambda>m.
     ebind (meta_color_profile objects rootd m) (\<lambda>m.
     ebind (meta_dates rootd (meta_procreate_version rootd m)) (\<lambda>m.
       meta_zip_fallback ev zf m)))))))"

definition extract_fields :: "env \<Rightarrow> pyval \<Rightarrow> pyval \<Rightarrow> zipfile option \<Rightarrow> meta result" where
  "extract_fields ev objects rt zf =
     (case rt of
        PDict rootd \<Rightarrow> ebind (resolved_fields ev objects rootd zf) (\<lambda>m. Inr (clamp_dates m))
      | _ \<Rightarrow> Inl AttributeError)"

text \<open>
  \<^verbatim>\<open>
  def parse_document_archive(data, zf=None):
      plist = biplist.readPlistFromString(data)
      objects = plist["$objects"]
      top = plist["$top"]
      root_ref = top["root"]
      root_uid = cfuid(root_ref)
      if root_uid is None:
          raise RuntimeError(f"Could not resolve root UID from: {root_ref}")
      root = objects[root_uid]
      meta = {}
      ...
      return meta
  \<close>
\<close>

definition resolve_root :: "pyval \<Rightarrow> (pyval \<times> pyval) result" where
  "resolve_root plist =
     ebind (py_getitem plist (PStr ''$objects'')) (\<lambda>objects.
     ebind (py_getitem plist (PStr ''$top'')) (\<lambda>top.
     ebind (py_getitem top (PStr ''root'')) (\<lambda>root_ref.
       let root_uid = cfuid root_ref in
       if root_uid = PNone then Inl (RuntimeError ''Could not resolve root UID'')
       else ebind (py_getitem objects root_uid) (\<lambda>rt. Inr (objects, rt)))))"

definition parse_document_archive :: "env \<Rightarrow> string \<Rightarrow> zipfile option \<Rightarrow> meta result" where
  "parse_document_archive ev data zf =
     ebind (readPlistFromString ev data) (\<lambda>plist.
     ebind (resolve_root plist) (\<lambda>(objects, rt).
       extract_fields ev objects rt zf))"


section \<open>SHA-256\<close>

text \<open>\<^verbatim>\<open>hashlib.sha256\<close>: the hash function of FIPS 180-4 on a list of bytes, and the
  lower-case hexadecimal text of its digest. A hash object holds the bytes it was fed;
  \<^verbatim>\<open>update\<close> appends to them.\<close>

type_synonym w32 = "32 word"

type_synonym sha_state = "w32 \<times> w32 \<times> w32 \<times> w32 \<times> w32 \<times> w32 \<times> w32 \<times> w32"

definition sha_K :: "w32 list" where
  "sha_K = [
     0x428A2F98, 0x71374491, 0xB5C0FBCF, 0xE9B5DBA5,
     0x3956C25B, 0x59F111F1, 0x923F82A4, 0xAB1C5ED5,
     0xD807AA98, 0x12835B01, 0x243185BE, 0x550C7DC3,
     0x72BE5D74, 0x80DEB1FE, 0x9BDC06A7, 0xC19BF174,
     0xE49B69C1, 0xEFBE4786, 0x0FC19DC6, 0x240CA1CC,
     0x2DE92C6F, 0x4A7484AA, 0x5CB0A9DC, 0x76F988DA,
     0x983E5152, 0xA831C66D, 0xB00327C8, 0xBF597FC7,
     0xC6E00BF3, 0xD5A79147, 0x06CA6351, 0x14292967,
     0x27B70A85, 0x2E1B2138, 0x4D2C6DFC, 0x53380D13,
     0x650A7354, 0x766A0ABB, 0x81C2C92E, 0x92722C85,
     0xA2BFE8A1, 0xA81A664B, 0xC24B8B70, 0xC76C51A3,
     0xD192E819, 0xD6990624, 0xF40E3585, 0x106AA070,
     0x19A4C116, 0x1E376C08, 0x2748774C, 0x34B0BCB5,
     0x391C0CB3, 0x4ED8AA4A, 0x5B9CCA4F, 0x682E6FF3,
     0x748F82EE, 0x78A5636F, 0x84C87814, 0x8CC70208,
     0x90BEFFFA, 0xA4506CEB, 0xBEF9A3F7, 0xC67178F2]"

definition sha_H0 :: sha_state where
  "sha_H0 = (0x6A09E667, 0xBB67AE85, 0x3C6EF372, 0xA54FF53A,
     0x510E527F, 0x9B05688C, 0x1F83D9AB, 0x5BE0CD19)"

definition rotr :: "nat \<Rightarrow> w32 \<Rightarrow> w32" where
  "rotr n w = word_rotr n w"

definition shr :: "nat \<Rightarrow> w32 \<Rightarrow> w32" where
  "shr n w = drop_bit n w"

definition Ch :: "w32 \<Rightarrow> w32 \<Rightarrow> w32 \<Rightarrow> w32" where
  "Ch x y z = xor (and x y) (and (not x) z)"

definition Maj :: "w32 \<Rightarrow> w32 \<Rightarrow> w32 \<Rightarrow> w32" where
  "Maj x y z = xor (xor (and x y) (and x z)) (and y z)"

definition Sigma0 :: "w32 \<Rightarrow> w32" where
  "Sigma0 x = xor (xor (rotr 2 x) (rotr 13 x)) (rotr 22 x)"

definition Sigma1 :: "w32 \<Rightarrow> w32" where
  "Sigma1 x = xor (xor (rotr 6 x) (rotr 11 x)) (rotr 25 x)"

definition sigma0 :: "w32 \<Rightarrow> w32" where
  "sigma0 x = xor (xor (rotr 7 x) (rotr 18 x)) (shr 3 x)"

definition sigma1 :: "w32 \<Rightarrow> w32" where
  "sigma1 x = xor (xor (rotr 17 x) (rotr 19 x)) (shr 10 x)"

text \<open>Padding: the byte \<open>0x80\<close>, zero bytes up to 56 modulo 64, and the length in bits as
  eight bytes, most significant first.\<close>

definition be_bytes :: "nat \<Rightarrow> nat \<Rightarrow> string" where
  "be_bytes k n = map (\<lambda>i. char_of (n div 256 ^ i)) (rev [0..<k])"

definition sha_pad :: "string \<Rightarrow> string" where
  "sha_pad msg =
     msg @ [char_of (128 :: nat)]
       @ replicate ((119 - length msg mod 64) mod 64) (char_of (0 :: nat))
       @ be_bytes 8 (8 * length msg mod 2 ^ 64)"

definition be32 :: "string \<Rightarrow> w32" where
  "be32 bs = foldl (\<lambda>w b. push_bit 8 w + of_nat (of_char b)) 0 bs"

fun words_of :: "string \<Rightarrow> w32 list" where
  "words_of (a # b # c # d # rest) = be32 [a, b, c, d] # words_of rest"
| "words_of rest = []"

fun blocks_of :: "w32 list \<Rightarrow> w32 list list" where
  "blocks_of [] = []"
| "blocks_of ws = take 16 ws # blocks_of (drop 16 ws)"

text \<open>The message schedule: 48 more words after the 16 of the block.\<close>

definition schedule_step :: "w32 list \<Rightarrow> w32 list" where
  "schedule_step ws =
     (let t = length ws
      in ws @ [sigma1 (ws ! (t - 2)) + ws ! (t - 7) + sigma0 (ws ! (t - 15)) + ws ! (t - 16)])"

definition schedule :: "w32 list \<Rightarrow> w32 list" where
  "schedule block = (schedule_step ^^ 48) block"

definition sha_round :: "sha_state \<Rightarrow> w32 \<times> w32 \<Rightarrow> sha_state" where
  "sha_round st kw =
     (case st of (a, b, c, d, e, f, g, h) \<Rightarrow>
        (let t1 = h + Sigma1 e + Ch e f g + fst kw + snd kw;
             t2 = Sigma0 a + Maj a b c
         in (t1 + t2, a, b, c, d + t1, e, f, g)))"

definition sha_add :: "sha_state \<Rightarrow> sha_state \<Rightarrow> sha_state" where
  "sha_add s t =
     (case s of (a, b, c, d, e, f, g, h) \<Rightarrow>
      case t of (a', b', c', d', e', f', g', h') \<Rightarrow>
        (a + a', b + b', c + c', d + d', e + e', f + f', g + g', h + h'))"

definition sha_block :: "sha_state \<Rightarrow> w32 list \<Rightarrow> sha_state" where
  "sha_block st block = sha_add st (foldl sha_round st (zip sha_K (schedule block)))"

definition sha256 :: "string \<Rightarrow> sha_state" where
  "sha256 msg = foldl sha_block sha_H0 (blocks_of (words_of (sha_pad msg)))"

definition hex_digit :: "nat \<Rightarrow> char" where
  "hex_digit n = ''0123456789abcdef'' ! (n mod 16)"

definition hex32 :: "w32 \<Rightarrow> string" where
  "hex32 w = map (\<lambda>i. hex_digit (unat (drop_bit (4 * i) w))) (rev [0..<8])"

definition hexdigest :: "string \<Rightarrow> string" where
  "hexdigest msg =
     (case sha256 msg of (a, b, c, d, e, f, g, h) \<Rightarrow>
        concat (map hex32 [a, b, c, d, e, f, g, h]))"

section \<open>Files, \<^verbatim>\<open>compute_sha256\<close>, \<^verbatim>\<open>extract_thumbnail\<close>, \<^verbatim>\<open>inspect_procreate\<close>\<close>

text \<open>The world the commands act on: the files by path, and the lines printed so far
  (a printed line is the dict that \<^verbatim>\<open>json.dumps\<close> was given). A write to a file succeeds.\<close>

record world =
  files :: "string \<rightharpoonup> string"
  stdout :: "meta list"

text \<open>\<^verbatim>\<open>f.read(n)\<close> on what is left of an open file: all of it when \<open>n\<close> is negative, at most
  \<open>n\<close> bytes otherwise.\<close>

definition f_read :: "int \<Rightarrow> string \<Rightarrow> string" where
  "f_read n rest = (if n < 0 then rest else take (nat n) rest)"

text \<open>
  \<^verbatim>\<open>
  for chunk in iter(lambda: f.read(chunk_size), b""):
      sha.update(chunk)
  \<close>
  on what is left of the file and the bytes the hash object holds.
\<close>

function read_chunks :: "int \<Rightarrow> string \<Rightarrow> string \<Rightarrow> string" where
  "read_chunks chunk_size rest sha =
     (let chunk = f_read chunk_size rest
      in if chunk = [] then sha
         else read_chunks chunk_size (drop (length chunk) rest) (sha @ chunk))"
  by pat_completeness auto
termination
  by (relation "measure (\<lambda>(n, rest, sha). length rest)")
     (auto simp: f_read_def split: if_splits)

declare read_chunks.simps [simp del]

text \<open>
  \<^verbatim>\<open>
  def compute_sha256(path: Path, chunk_size: int = 1024 * 1024) -> str:
      sha = hashlib.sha256()
      with path.open("rb") as f:
          for chunk in iter(lambda: f.read(chunk_size), b""):
              sha.update(chunk)
      return sha.hexdigest()
  \<close>
\<close>

definition compute_sha256 :: "world \<Rightarrow> string \<Rightarrow> int \<Rightarrow> string result" where
  "compute_sha256 w path chunk_size =
     (case files w path of
        None \<Rightarrow> Inl (LibraryError ''FileNotFoundError'')
      | Some bytes \<Rightarrow> Inr (hexdigest (read_chunks chunk_size bytes [])))"

definition default_chunk_size :: int where
  "default_chunk_size = 1024 * 1024"

subsection \<open>Paths\<close>

text \<open>A path is the text \<^verbatim>\<open>str(path)\<close>. Its name is what follows the last slash; the suffix
  starts at the last dot of the name, unless that dot is the first or the last character.\<close>

definition path_name :: "string \<Rightarrow> string" where
  "path_name p = rev (takeWhile (\<lambda>c. c \<noteq> CHR ''/'') (rev p))"

definition suffix_start :: "string \<Rightarrow> nat option" where
  "suffix_start name =
     (let k = length (takeWhile (\<lambda>c. c \<noteq> CHR ''.'') (rev name))
      in if k < length name \<and> 0 < k \<and> k + 1 < length name
         then Some (length name - k - 1) else None)"

definition path_suffix :: "string \<Rightarrow> string" where
  "path_suffix p =
     (let name = path_name p
      in case suffix_start name of Some i \<Rightarrow> drop i name | None \<Rightarrow> [])"

definition path_stem :: "string \<Rightarrow> string" where
  "path_stem p =
     (let name = path_name p
      in case suffix_start name of Some i \<Rightarrow> take i name | None \<Rightarrow> name)"

definition dec_digit :: "nat \<Rightarrow> char" where
  "dec_digit n = ''0123456789'' ! (n mod 10)"

function show_nat :: "nat \<Rightarrow> string" where
  "show_nat n =
     (if n < 10 then [dec_digit n] else show_nat (n div 10) @ [dec_digit (n mod 10)])"
  by pat_completeness auto
termination
  by (relation "measure id") auto

declare show_nat.simps [simp del]

definition show_int :: "int \<Rightarrow> string" where
  "show_int i = (if i < 0 then CHR ''-'' # show_nat (nat (- i)) else show_nat (nat i))"

subsection \<open>The thumbnail\<close>

text \<open>
  \<^verbatim>\<open>
  def extract_thumbnail(zf, procreate_path) -> Optional[str]:
      try:
          data = zf.read("QuickLook/Thumbnail.png")
      except KeyError:
          return None
      out_path = TEMP_DIR / f"{procreate_path.stem}_{int(time.time())}.png"
      with open(out_path, "wb") as f:
          f.write(data)
      Image.open(out_path).verify()
      return str(out_path)
  \<close>
  The result is the value returned or the exception raised, with the world as the call
  leaves it.
\<close>

definition thumbnail_out_path :: "env \<Rightarrow> string \<Rightarrow> string" where
  "thumbnail_out_path ev procreate_path =
     temp_dir ev @ ''/'' @ path_stem procreate_path @ ''_'' @ show_int (now ev) @ ''.png''"

definition extract_thumbnail :: "env \<Rightarrow> zipfile \<Rightarrow> string \<Rightarrow> world \<Rightarrow> pyval result \<times> world" where
  "extract_thumbnail ev zf procreate_path w =
     (case zip_read zf ''QuickLook/Thumbnail.png'' of
        Inl e \<Rightarrow> (if e = KeyError then Inr PNone else Inl e, w)
      | Inr data \<Rightarrow>
          (let out_path = thumbnail_out_path ev procreate_path;
               w' = w\<lparr>files := (files w)(out_path \<mapsto> data)\<rparr>
           in case image_verify ev data of
                Some e \<Rightarrow> (Inl e, w')
              | None \<Rightarrow> (Inr (PStr out_path), w')))"

subsection \<open>The \<^verbatim>\<open>inspect\<close> command\<close>

text \<open>What \<^verbatim>\<open>json.dumps\<close> refuses with \<^verbatim>\<open>TypeError\<close>: bytes, a \<^verbatim>\<open>Uid\<close> and a \<^verbatim>\<open>datetime\<close>,
  anywhere in the value.\<close>

primrec json_ok :: "pyval \<Rightarrow> bool" where
  "json_ok PNone = True"
| "json_ok (PBool b) = True"
| "json_ok (PInt i) = True"
| "json_ok (PFloat f) = True"
| "json_ok (PDate t) = False"
| "json_ok (PBytes s) = False"
| "json_ok (PStr s) = True"
| "json_ok (PUid n) = False"
| "json_ok (PList xs) = list_all id (map json_ok xs)"
| "json_ok (PDict d) = list_all snd (map (map_prod id json_ok) d)"

text \<open>
  \<^verbatim>\<open>
  def inspect_procreate(path: Path):
      if not path.exists() or path.suffix.lower() != ".procreate":
          raise RuntimeError("Invalid .procreate file")
      with zipfile.ZipFile(path, "r") as zf:
          archive_data = zf.read("Document.archive")
          meta = parse_document_archive(archive_data, zf)
          thumb_path = extract_thumbnail(zf, path)
      meta["thumbnail_path"] = thumb_path
      meta["source_path"] = str(path)
      meta["file_hash"] = compute_sha256(path)
      print(json.dumps(meta, separators=(",", ":"), ensure_ascii=False))
  \<close>
  The dict has the ten keys of \<^verbatim>\<open>parse_document_archive\<close> at most and these three, so
  \<^verbatim>\<open>json.dumps\<close> is checked on those.
\<close>

definition meta_keys :: "string list" where
  "meta_keys =
     [''canvas_width'', ''canvas_height'', ''dpi'', ''orientation'', ''layer_count'',
      ''time_spent'', ''color_profile'', ''procreate_version'', ''created_at'',
      ''updated_at'', ''thumbnail_path'', ''source_path'', ''file_hash'']"

definition json_dumps :: "meta \<Rightarrow> meta result" where
  "json_dumps meta =
     (if list_all (\<lambda>k. case meta k of None \<Rightarrow> True | Some v \<Rightarrow> json_ok v) meta_keys
      then Inr meta else Inl TypeError)"

definition print_line :: "meta \<Rightarrow> world \<Rightarrow> world" where
  "print_line line w = w\<lparr>stdout := stdout w @ [line]\<rparr>"

definition inspect_procreate :: "env \<Rightarrow> string \<Rightarrow> world \<Rightarrow> unit result \<times> world" where
  "inspect_procreate ev path w =
     (case files w path of
        None \<Rightarrow> (Inl (RuntimeError ''Invalid .procreate file''), w)
      | Some bytes \<Rightarrow>
          if map ascii_lower (path_suffix path) = ''.procreate'' then
            (case open_zip ev bytes of
               Inl e \<Rightarrow> (Inl e, w)
             | Inr zf \<Rightarrow>
                 (case ebind (zip_read zf ''Document.archive'')
                         (\<lambda>archive_data. parse_document_archive ev archive_data (Some zf)) of
                    Inl e \<Rightarrow> (Inl e, w)
                  | Inr meta \<Rightarrow>
                      (case extract_thumbnail ev zf path w of
                         (Inl e, w1) \<Rightarrow> (Inl e, w1)
                       | (Inr thumb_path, w1) \<Rightarrow>
                           (case compute_sha256 w1 path default_chunk_size of
                              Inl e \<Rightarrow> (Inl e, w1)
                            | Inr h \<Rightarrow>
                                (case json_dumps
                                        (meta(''thumbnail_path'' \<mapsto> thumb_path,
                                              ''source_path'' \<mapsto> PStr path,
                                              ''file_hash'' \<mapsto> PStr h)) of
                                   Inl e \<Rightarrow> (Inl e, w1)
                                 | Inr line \<Rightarrow> (Inr (), print_line line w1))))))
          else (Inl (RuntimeError ''Invalid .procreate file''), w))"

section \<open>Example archives\<close>

text \<open>A keyed archive whose object table holds \<^verbatim>\<open>"$null"\<close> at index 0, the root at index 1
  and further objects from index 2 on, with the root pointer \<^verbatim>\<open>Uid(1)\<close>; and an environment
  whose decoder returns a given property list, whose time zone is UTC (on the two dates
  the example containers use; any other tuple raises), whose clock gives a fixed number
  and whose image check accepts everything. The example container holds the archive
  and, on demand, a thumbnail stored a month later.\<close>

definition keyed_archive :: "pyval \<Rightarrow> pyval list \<Rightarrow> pyval" where
  "keyed_archive rt others =
     PDict [(''$objects'', PList (PStr ''$null'' # rt # others)),
            (''$top'', PDict [(''root'', PUid 1)])]"

definition example_env :: "pyval \<Rightarrow> env" where
  "example_env plist =
     \<lparr> readPlistFromString = (\<lambda>data. Inr plist),
       timestamp =
         (\<lambda>t. if t = (2024, 1, 1, 0, 0, 0) then Inr 1704067200
              else if t = (2024, 2, 2, 0, 0, 0) then Inr 1706832000
              else Inl ValueError),
       open_zip = (\<lambda>bytes. Inl (LibraryError ''BadZipFile'')),
       image_verify = (\<lambda>bytes. None),
       now = 1700000123,
       temp_dir = ''/tmp/procreate_meta'' \<rparr>"

definition example_zip :: "bool \<Rightarrow> zipfile" where
  "example_zip thumb =
     (if thumb then
        [''Document.archive'' \<mapsto> \<lparr>date_time = (2024, 1, 1, 0, 0, 0), file_data = []\<rparr>,
         ''QuickLook/Thumbnail.png'' \<mapsto>
           \<lparr>date_time = (2024, 2, 2, 0, 0, 0), file_data = ''png''\<rparr>]
      else
        [''Document.archive'' \<mapsto> \<lparr>date_time = (2024, 1, 1, 0, 0, 0), file_data = []\<rparr>])"

section \<open>Basic facts\<close>

lemma ebind_Inr [simp]: "ebind (Inr x) f = f x"
  by (simp add: ebind_def)

lemma ebind_Inl [simp]: "ebind (Inl e) f = Inl e"
  by (simp add: ebind_def)

lemma ebind_eq_Inr: "(ebind m f = Inr y) = (\<exists>x. m = Inr x \<and> f x = Inr y)"
  by (cases m) simp_all

lemma ebind_eq_Inl: "(ebind m f = Inl e) = (m = Inl e \<or> (\<exists>x. m = Inr x \<and> f x = Inl e))"
  by (cases m) simp_all

lemma py_or_PNone [simp]: "py_or PNone b = b"
  by (simp add: py_or_def)

lemma py_or_truthy: "py_truthy a \<Longrightarrow> py_or a b = a"
  by (simp add: py_or_def)

lemma py_or_falsy: "\<not> py_truthy a \<Longrightarrow> py_or a b = b"
  by (simp add: py_or_def)


lemma dict_get_present: "map_of d k = Some v \<Longrightarrow> dict_get d k = v"
  by (simp add: dict_get_def dict_get_default_def)

lemma resolve_PNone [simp]: "resolve objects PNone = Inr PNone"
  by (simp add: resolve_def)

subsection \<open>Rounding is exact on the integers below \<open>2 ^ 53\<close>\<close>

lemma round_half_even_of_int [simp]: "round_half_even (of_int n) = n"
  by (simp add: round_half_even_def)

lemma ilog2_of_int_le:
  assumes "0 < i" "i < 2 ^ 53"
  shows "ilog2 (of_int i) \<le> 52"
proof -
  have "bitlen i \<le> 53" using assms by (simp add: bitlen_le_iff_power)
  moreover have "bitlen 1 = 1" by (simp add: bitlen_alt_def)
  ultimately show ?thesis
    by (simp add: ilog2_def Let_def)
qed

lemma round_double_abs_int:
  assumes "0 < i" "i < 2 ^ 53" and q: "\<bar>q\<bar> = rat_of_int i"
  shows "round_double q = Finite q"
proof -
  define e where "e = max (ilog2 (of_int i)) (- 1022)"
  have e: "e \<le> 52" "- 1022 \<le> e"
    using ilog2_of_int_le [OF assms(1,2)] by (simp_all add: e_def)
  define k where "k = nat (52 - e)"
  have u: "pow2 (e - 52) = 1 / 2 ^ k"
    using e by (auto simp: pow2_def k_def)
  have "rat_of_int i / (1 / 2 ^ k) = of_int (i * 2 ^ k)" by simp
  then have r: "of_int (round_half_even (rat_of_int i / pow2 (e - 52))) * pow2 (e - 52)
      = rat_of_int i"
    unfolding u by (simp only: round_half_even_of_int) simp
  have "rat_of_int i < 2 ^ 53" using assms(2)
    by (metis of_int_less_iff of_int_numeral of_int_power)
  also have "\<dots> < (2::rat) ^ 1024" by simp
  finally have small: "\<not> pow2 1024 \<le> rat_of_int i" by (simp add: pow2_def)
  have nz: "q \<noteq> 0" using q assms(1) by auto
  have sgn: "(if 0 < q then rat_of_int i else - rat_of_int i) = q"
    using q by (auto simp: abs_if split: if_splits)
  show ?thesis
    unfolding round_double_def Let_def q e_def [symmetric] r
    using nz small sgn by simp
qed

lemma round_double_of_int:
  assumes "\<bar>i\<bar> < 2 ^ 53"
  shows "round_double (of_int i) = Finite (of_int i)"
proof (cases "i = 0")
  case True
  then show ?thesis by (simp add: round_double_def)
next
  case False
  then have "0 < \<bar>i\<bar>" by simp
  moreover have "\<bar>rat_of_int i\<bar> = rat_of_int \<bar>i\<bar>" by simp
  ultimately show ?thesis using assms round_double_abs_int by blast
qed

lemma round_double_offset: "round_double 978307200 = Finite 978307200"
  using round_double_of_int [of 978307200] by simp

subsection \<open>The stages of \<^verbatim>\<open>parse_document_archive\<close>\<close>

lemma resolved_fields_Inr:
  "(resolved_fields ev objects rootd zf = Inr m) =
     (\<exists>m1 i orn l t cp c u.
        meta_canvas objects rootd Map.empty = Inr m1 \<and> dpi_of rootd = Inr i
        \<and> orientation_of rootd = Inr orn \<and> layer_count_of objects rootd = Inr l
        \<and> time_spent_of rootd = Inr t \<and> color_profile_of objects rootd = Inr cp
        \<and> apple_time_to_unix (created_of rootd) = Inr c
        \<and> apple_time_to_unix (modified_of rootd) = Inr u
        \<and> meta_zip_fallback ev zf
             (m1(''dpi'' \<mapsto> PInt i, ''orientation'' \<mapsto> orn, ''layer_count'' \<mapsto> PInt l,
                 ''time_spent'' \<mapsto> PInt t, ''color_profile'' \<mapsto> cp,
                 ''procreate_version'' \<mapsto> procreate_version_of rootd,
                 ''created_at'' \<mapsto> c, ''updated_at'' \<mapsto> u)) = Inr m)"
  unfolding resolved_fields_def meta_dpi_def meta_orientation_def meta_layer_count_def
    meta_time_spent_def meta_color_profile_def meta_dates_def meta_procreate_version_def
    ebind_eq_Inr
  by blast

lemma apple_time_to_unix_range:
  "apple_time_to_unix v = Inr c \<Longrightarrow> c = PNone \<or> (\<exists>i. c = PInt i)"
  by (auto simp: apple_time_to_unix_def ebind_eq_Inr split: if_splits)

lemma zip_timestamp_range:
  "zip_timestamp ev z = Inr ts \<Longrightarrow> ts = PNone \<or> (\<exists>t. ts = PInt t)"
  by (auto simp: zip_timestamp_def ebind_eq_Inr split: if_splits sum.splits)

lemma canvas_zero_upd [simp]:
  "canvas_zero (m(''canvas_width'' \<mapsto> v)) = canvas_zero m"
  by (simp add: canvas_zero_def)

lemma canvas_try_cases:
  assumes "canvas_try s m = (m', r)"
  shows "(r = None \<and> (m' = m \<or> (\<exists>w h. m' = m(''canvas_width'' \<mapsto> PInt w, ''canvas_height'' \<mapsto> PInt h))))
       \<or> (r \<noteq> None \<and> canvas_zero m' = canvas_zero m)"
  using assms unfolding canvas_try_def Let_def
  by (auto split: if_splits sum.splits)

lemma meta_canvas_cases:
  assumes "meta_canvas objects rootd m = Inr m1"
  shows "m1 = m \<or> (\<exists>w h. m1 = m(''canvas_width'' \<mapsto> PInt w, ''canvas_height'' \<mapsto> PInt h))"
proof -
  from assms obtain canvas where
    c: "(case canvas of
            PDict c \<Rightarrow>
              ebind (py_int (dict_get_default c ''width'' (PInt 0))) (\<lambda>w.
              ebind (py_int (dict_get_default c ''height'' (PInt 0))) (\<lambda>h.
                Inr (m(''canvas_width'' \<mapsto> PInt w, ''canvas_height'' \<mapsto> PInt h))))
          | PStr s \<Rightarrow>
              (case canvas_try s m of
                 (m', None) \<Rightarrow> Inr m'
               | (m', Some e) \<Rightarrow> Inr (canvas_zero m'))
          | _ \<Rightarrow> Inr (canvas_zero m)) = Inr m1"
    unfolding meta_canvas_def ebind_eq_Inr by blast
  show ?thesis
  proof (cases canvas)
    case (PDict d)
    with c show ?thesis by (auto simp: ebind_eq_Inr)
  next
    case (PStr s)
    obtain m' r where t: "canvas_try s m = (m', r)" by (cases "canvas_try s m")
    show ?thesis
    proof (cases r)
      case None
      with canvas_try_cases [OF t] c PStr t show ?thesis by auto
    next
      case (Some e)
      with canvas_try_cases [OF t] have "canvas_zero m' = canvas_zero m" by simp
      moreover from c PStr t Some have "m1 = canvas_zero m'" by simp
      ultimately have "m1 = m(''canvas_width'' \<mapsto> PInt 0, ''canvas_height'' \<mapsto> PInt 0)"
        by (simp add: canvas_zero_def)
      then show ?thesis by blast
    qed
  qed (use c in \<open>auto simp: canvas_zero_def\<close>)
qed

lemma meta_canvas_frame:
  "meta_canvas objects rootd m = Inr m1 \<Longrightarrow> k \<noteq> ''canvas_width'' \<Longrightarrow> k \<noteq> ''canvas_height''
   \<Longrightarrow> m1 k = m k"
  by (drule meta_canvas_cases) auto


lemma meta_zip_fallback_frame:
  "meta_zip_fallback ev zf m = Inr m' \<Longrightarrow> k \<noteq> ''created_at'' \<Longrightarrow> k \<noteq> ''updated_at''
   \<Longrightarrow> m' k = m k"
  unfolding meta_zip_fallback_def fill_none_def
  by (cases zf) (auto simp: ebind_eq_Inr split: if_splits)

lemma fill_none_other: "k' \<noteq> k \<Longrightarrow> fill_none k ts m k' = m k'"
  by (simp add: fill_none_def)

lemma fill_none_same:
  "fill_none k ts m k = (if m k = Some PNone then Some ts else m k)"
  by (simp add: fill_none_def)

lemma meta_zip_fallback_cases:
  assumes "meta_zip_fallback ev zf m = Inr m'"
  shows "m' = m
       \<or> (\<exists>z t. zf = Some z \<and> zip_timestamp ev z = Inr (PInt t)
            \<and> m' = fill_none ''updated_at'' (PInt t) (fill_none ''created_at'' (PInt t) m))"
proof (cases zf)
  case None
  with assms show ?thesis by (simp add: meta_zip_fallback_def)
next
  case (Some z)
  show ?thesis
  proof (cases "meta_zip_fallback ev zf m = Inr m \<and> m' = m")
    case True
    then show ?thesis by simp
  next
    case False
    with assms Some obtain ts where ts: "zip_timestamp ev z = Inr ts" "ts \<noteq> PNone"
      and m': "m' = fill_none ''updated_at'' ts (fill_none ''created_at'' ts m)"
      by (auto simp: meta_zip_fallback_def ebind_eq_Inr split: if_splits)
    from zip_timestamp_range [OF ts(1)] ts(2) obtain t where "ts = PInt t" by auto
    with ts m' Some show ?thesis by auto
  qed
qed

lemma meta_zip_fallback_none:
  "meta_zip_fallback ev None m = Inr m"
  by (simp add: meta_zip_fallback_def)

lemma meta_zip_fallback_both_none:
  assumes "m ''created_at'' = Some PNone" "m ''updated_at'' = Some PNone"
      and "zip_timestamp ev z = Inr (PInt t)"
  shows "meta_zip_fallback ev (Some z) m
           = Inr (m(''created_at'' \<mapsto> PInt t, ''updated_at'' \<mapsto> PInt t))"
  using assms by (simp add: meta_zip_fallback_def fill_none_def)

lemma clamp_dates_other: "k \<noteq> ''created_at'' \<Longrightarrow> clamp_dates m k = m k"
  by (simp add: clamp_dates_def split: option.splits pyval.splits)

lemma clamp_dates_ints:
  "m ''created_at'' = Some (PInt c) \<Longrightarrow> m ''updated_at'' = Some (PInt u)
   \<Longrightarrow> clamp_dates m ''created_at'' = Some (PInt (if u < c then u else c))"
  by (simp add: clamp_dates_def)

lemma clamp_dates_none:
  "m ''created_at'' = Some PNone \<or> m ''updated_at'' = Some PNone \<Longrightarrow> clamp_dates m = m"
  by (auto simp: clamp_dates_def split: option.splits pyval.splits)

lemma parse_document_archive_root:
  assumes "readPlistFromString ev data = Inr plist" "resolve_root plist = Inr (objects, rt)"
  shows "parse_document_archive ev data zf = extract_fields ev objects rt zf"
  using assms by (simp add: parse_document_archive_def)

lemma parse_document_archive_Inr:
  assumes "parse_document_archive ev data zf = Inr meta"
  obtains plist objects rootd m where
    "readPlistFromString ev data = Inr plist" "resolve_root plist = Inr (objects, PDict rootd)"
    "resolved_fields ev objects rootd zf = Inr m" "meta = clamp_dates m"
proof -
  from assms obtain plist objects rt where
    p: "readPlistFromString ev data = Inr plist" "resolve_root plist = Inr (objects, rt)"
    and e: "extract_fields ev objects rt zf = Inr meta"
    by (auto simp: parse_document_archive_def ebind_eq_Inr)
  from e obtain rootd where rt: "rt = PDict rootd"
    by (cases rt) (simp_all add: extract_fields_def)
  from e rt obtain m where "resolved_fields ev objects rootd zf = Inr m" "meta = clamp_dates m"
    by (auto simp: extract_fields_def ebind_eq_Inr)
  with p rt that show thesis by blast
qed

lemma resolved_fields_Inr_E:
  assumes "resolved_fields ev objects rootd zf = Inr m"
  obtains m1 i orn l t cp c u where
    "meta_canvas objects rootd Map.empty = Inr m1" "dpi_of rootd = Inr i"
    "orientation_of rootd = Inr orn" "layer_count_of objects rootd = Inr l"
    "time_spent_of rootd = Inr t" "color_profile_of objects rootd = Inr cp"
    "apple_time_to_unix (created_of rootd) = Inr c"
    "apple_time_to_unix (modified_of rootd) = Inr u"
    "meta_zip_fallback ev zf
       (m1(''dpi'' \<mapsto> PInt i, ''orientation'' \<mapsto> orn, ''layer_count'' \<mapsto> PInt l,
           ''time_spent'' \<mapsto> PInt t, ''color_profile'' \<mapsto> cp,
           ''procreate_version'' \<mapsto> procreate_version_of rootd,
           ''created_at'' \<mapsto> c, ''updated_at'' \<mapsto> u)) = Inr m"
  using assms unfolding resolved_fields_Inr by blast

lemma resolved_fields_dates:
  assumes "resolved_fields ev objects rootd zf = Inr m"
  shows "(m ''created_at'' = Some PNone \<or> (\<exists>c. m ''created_at'' = Some (PInt c)))
       \<and> (m ''updated_at'' = Some PNone \<or> (\<exists>u. m ''updated_at'' = Some (PInt u)))"
proof -
  from assms obtain m1 i orn l t cp c u where
    c: "apple_time_to_unix (created_of rootd) = Inr c"
    and u: "apple_time_to_unix (modified_of rootd) = Inr u"
    and f: "meta_zip_fallback ev zf
       (m1(''dpi'' \<mapsto> PInt i, ''orientation'' \<mapsto> orn, ''layer_count'' \<mapsto> PInt l,
           ''time_spent'' \<mapsto> PInt t, ''color_profile'' \<mapsto> cp,
           ''procreate_version'' \<mapsto> procreate_version_of rootd,
           ''created_at'' \<mapsto> c, ''updated_at'' \<mapsto> u)) = Inr m"
    by (rule resolved_fields_Inr_E)
  define m0 where "m0 = m1(''dpi'' \<mapsto> PInt i, ''orientation'' \<mapsto> orn, ''layer_count'' \<mapsto> PInt l,
           ''time_spent'' \<mapsto> PInt t, ''color_profile'' \<mapsto> cp,
           ''procreate_version'' \<mapsto> procreate_version_of rootd,
           ''created_at'' \<mapsto> c, ''updated_at'' \<mapsto> u)"
  have m0: "m0 ''created_at'' = Some c" "m0 ''updated_at'' = Some u"
    by (simp_all add: m0_def)
  from f have f': "meta_zip_fallback ev zf m0 = Inr m" by (simp only: m0_def)
  have cr: "c = PNone \<or> (\<exists>i. c = PInt i)" by (rule apple_time_to_unix_range [OF c])
  have ur: "u = PNone \<or> (\<exists>i. u = PInt i)" by (rule apple_time_to_unix_range [OF u])
  from meta_zip_fallback_cases [OF f'] show ?thesis
  proof
    assume "m = m0"
    with m0 cr ur show ?thesis by auto
  next
    assume "\<exists>z t. zf = Some z \<and> zip_timestamp ev z = Inr (PInt t)
            \<and> m = fill_none ''updated_at'' (PInt t) (fill_none ''created_at'' (PInt t) m0)"
    then obtain t where
      m: "m = fill_none ''updated_at'' (PInt t) (fill_none ''created_at'' (PInt t) m0)"
      by blast
    have "m ''created_at'' = (if c = PNone then Some (PInt t) else Some c)"
      unfolding m using m0 by (simp add: fill_none_def)
    moreover have "m ''updated_at'' = (if u = PNone then Some (PInt t) else Some u)"
      unfolding m using m0 by (simp add: fill_none_def)
    ultimately show ?thesis using cr ur by auto
  qed
qed

subsection \<open>Evaluating the examples\<close>

lemmas field_defs =
  meta_canvas_def canvas_zero_def dpi_of_def orientation_of_def orientation_map_get_def
  layer_count_of_def time_spent_of_def color_profile_of_def procreate_version_of_def
  created_of_def modified_of_def apple_time_to_unix_def int_if_truthy_def
  dict_get_def dict_get_default_def py_or_def resolve_def

lemmas stage_defs =
  resolved_fields_def meta_dpi_def meta_orientation_def meta_layer_count_def
  meta_time_spent_def meta_color_profile_def meta_dates_def meta_procreate_version_def
  meta_zip_fallback_def

lemma resolve_root_keyed_archive [simp]:
  "resolve_root (keyed_archive rt others) = Inr (PList (PStr ''$null'' # rt # others), rt)"
  by (simp add: resolve_root_def keyed_archive_def seq_get_def)

lemma readPlist_example_env [simp]:
  "readPlistFromString (example_env plist) data = Inr plist"
  by (simp add: example_env_def)

lemma parse_example:
  "parse_document_archive (example_env (keyed_archive (PDict rootd) others)) data zf
     = ebind (resolved_fields (example_env (keyed_archive (PDict rootd) others))
                (PList (PStr ''$null'' # PDict rootd # others)) rootd zf)
         (\<lambda>m. Inr (clamp_dates m))"
  by (simp add: parse_document_archive_def extract_fields_def)

subsection \<open>Dates from the container\<close>



lemma apple_time_to_unix_PNone [simp]: "apple_time_to_unix PNone = Inr PNone"
  by (simp add: apple_time_to_unix_def)

lemma zip_timestamp_thumbnail:
  assumes "z ''QuickLook/Thumbnail.png'' = Some info" "timestamp ev (date_time info) = Inr t"
  shows "zip_timestamp ev z = Inr (PInt t)"
  using assms by (simp add: zip_timestamp_def entry_timestamp_def getinfo_def)

lemma zip_timestamp_archive:
  assumes "z ''QuickLook/Thumbnail.png'' = None"
    "z ''Document.archive'' = Some info" "timestamp ev (date_time info) = Inr t"
  shows "zip_timestamp ev z = Inr (PInt t)"
  using assms by (simp add: zip_timestamp_def entry_timestamp_def getinfo_def)

subsection \<open>The fields of a result\<close>

lemma extract_fields_values:
  assumes "extract_fields ev objects (PDict rootd) zf = Inr meta"
  shows "\<exists>m1 i orn l t cp.
           meta_canvas objects rootd Map.empty = Inr m1 \<and> dpi_of rootd = Inr i
         \<and> orientation_of rootd = Inr orn \<and> layer_count_of objects rootd = Inr l
         \<and> time_spent_of rootd = Inr t \<and> color_profile_of objects rootd = Inr cp
         \<and> meta ''canvas_width'' = m1 ''canvas_width''
         \<and> meta ''canvas_height'' = m1 ''canvas_height''
         \<and> meta ''dpi'' = Some (PInt i)
         \<and> meta ''orientation'' = Some orn
         \<and> meta ''layer_count'' = Some (PInt l)
         \<and> meta ''time_spent'' = Some (PInt t)
         \<and> meta ''color_profile'' = Some cp
         \<and> meta ''procreate_version'' = Some (procreate_version_of rootd)"
proof -
  from assms obtain m where m: "resolved_fields ev objects rootd zf = Inr m"
    and meta: "meta = clamp_dates m"
    by (auto simp: extract_fields_def ebind_eq_Inr)
  from m obtain m1 i orn l t cp c u where
    s: "meta_canvas objects rootd Map.empty = Inr m1" "dpi_of rootd = Inr i"
       "orientation_of rootd = Inr orn" "layer_count_of objects rootd = Inr l"
       "time_spent_of rootd = Inr t" "color_profile_of objects rootd = Inr cp"
    and f: "meta_zip_fallback ev zf
       (m1(''dpi'' \<mapsto> PInt i, ''orientation'' \<mapsto> orn, ''layer_count'' \<mapsto> PInt l,
           ''time_spent'' \<mapsto> PInt t, ''color_profile'' \<mapsto> cp,
           ''procreate_version'' \<mapsto> procreate_version_of rootd,
           ''created_at'' \<mapsto> c, ''updated_at'' \<mapsto> u)) = Inr m"
    by (rule resolved_fields_Inr_E)
  define m0 where "m0 = m1(''dpi'' \<mapsto> PInt i, ''orientation'' \<mapsto> orn, ''layer_count'' \<mapsto> PInt l,
           ''time_spent'' \<mapsto> PInt t, ''color_profile'' \<mapsto> cp,
           ''procreate_version'' \<mapsto> procreate_version_of rootd,
           ''created_at'' \<mapsto> c, ''updated_at'' \<mapsto> u)"
  from f have f': "meta_zip_fallback ev zf m0 = Inr m" by (simp only: m0_def)
  have look: "meta k = m0 k" if "k \<noteq> ''created_at''" "k \<noteq> ''updated_at''" for k
    unfolding meta using that meta_zip_fallback_frame [OF f'] by (simp add: clamp_dates_other)
  have "meta ''canvas_width'' = m1 ''canvas_width''" by (simp add: look m0_def)
  moreover have "meta ''canvas_height'' = m1 ''canvas_height''" by (simp add: look m0_def)
  moreover have "meta ''dpi'' = Some (PInt i)" by (simp add: look m0_def)
  moreover have "meta ''orientation'' = Some orn" by (simp add: look m0_def)
  moreover have "meta ''layer_count'' = Some (PInt l)" by (simp add: look m0_def)
  moreover have "meta ''time_spent'' = Some (PInt t)" by (simp add: look m0_def)
  moreover have "meta ''color_profile'' = Some cp" by (simp add: look m0_def)
  moreover have "meta ''procreate_version'' = Some (procreate_version_of rootd)"
    by (simp add: look m0_def)
  ultimately show ?thesis using s by blast
qed

lemma extract_fields_not_dict: "\<not> is_dict rt \<Longrightarrow> extract_fields ev objects rt zf = Inl AttributeError"
  by (cases rt) (simp_all add: extract_fields_def)

subsection \<open>Missing keys\<close>













subsection \<open>The canvas size\<close>

lemmas string_defs =
  strip_braces_def py_strip_def strip_chars_def is_space_def is_num_space_def
  is_ascii_space_def int_of_str_def int_of_bytes_def int_literal_def float_of_str_def
  floatnumber_def exponent_part_def digitpart_def digit_val_def ascii_lower_def

text \<open>The canvas statement with the \<^verbatim>\<open>try\<close> and its handler put together: what the dict
  is afterwards, by the shape of the resolved value.\<close>

lemma canvas_value:
  "meta_canvas objects rootd m =
     ebind (resolve objects (py_or (dict_get rootd ''canvasSize'') (dict_get rootd ''size'')))
       (\<lambda>canvas. case canvas of
          PDict c \<Rightarrow>
            ebind (py_int (dict_get_default c ''width'' (PInt 0))) (\<lambda>w.
            ebind (py_int (dict_get_default c ''height'' (PInt 0))) (\<lambda>h.
              Inr (m(''canvas_width'' \<mapsto> PInt w, ''canvas_height'' \<mapsto> PInt h))))
        | PStr s \<Rightarrow>
            (let parts = map py_strip (split_on CHR '','' (strip_braces s)) in
             if length parts = 2 then
               (case ebind (float_of_str (parts ! 0)) int_of_float of
                  Inl e \<Rightarrow> Inr (canvas_zero m)
                | Inr w \<Rightarrow>
                    (case ebind (float_of_str (parts ! 1)) int_of_float of
                       Inl e \<Rightarrow> Inr (canvas_zero m)
                     | Inr h \<Rightarrow>
                         Inr (m(''canvas_width'' \<mapsto> PInt w, ''canvas_height'' \<mapsto> PInt h))))
             else Inr m)
        | _ \<Rightarrow> Inr (canvas_zero m))"
  unfolding meta_canvas_def
  by (rule arg_cong [where f = "ebind _"], rule ext)
     (simp add: canvas_try_def Let_def split: pyval.split sum.split)

lemma canvas_dict_example:
  "\<exists>meta. parse_document_archive
       (example_env (keyed_archive
          (PDict [(''canvasSize'', PDict [(''width'', PInt 100), (''height'', PInt 200)])]) []))
       [] None = Inr meta
     \<and> meta ''canvas_width'' = Some (PInt 100) \<and> meta ''canvas_height'' = Some (PInt 200)"
  unfolding parse_example
  by (simp add: stage_defs field_defs clamp_dates_def)

lemma round_double_100: "round_double 100 = Finite 100"
  using round_double_of_int [of 100] by simp

lemma round_double_200: "round_double 200 = Finite 200"
  using round_double_of_int [of 200] by simp

lemma float_of_str_100: "float_of_str ''100'' = Inr (Finite 100)"
  by (simp add: string_defs round_double_100)

lemma float_of_str_200: "float_of_str ''200'' = Inr (Finite 200)"
  by (simp add: string_defs round_double_200)

lemma canvas_string_parts:
  "map py_strip (split_on CHR '','' (strip_braces ''{100, 200}'')) = [''100'', ''200'']"
  by (simp add: string_defs)

lemma canvas_string_example:
  "\<exists>meta. parse_document_archive
       (example_env (keyed_archive (PDict [(''size'', PUid 2)]) [PStr ''{100, 200}''])) []
       None = Inr meta
     \<and> meta ''canvas_width'' = Some (PInt 100) \<and> meta ''canvas_height'' = Some (PInt 200)"
  unfolding parse_example
  by (simp add: stage_defs canvas_value canvas_string_parts float_of_str_100 float_of_str_200
      py_trunc_def seq_get_def field_defs clamp_dates_def del: meta_canvas_def)

subsection \<open>Hashing\<close>

lemma f_read_split: "f_read n rest @ drop (length (f_read n rest)) rest = rest"
  by (cases "n < 0") (simp_all add: f_read_def min_def)

lemma f_read_empty: "n \<noteq> 0 \<Longrightarrow> f_read n rest = [] \<Longrightarrow> rest = []"
  by (auto simp: f_read_def split: if_splits)

lemma read_chunks_all:
  "chunk_size \<noteq> 0 \<Longrightarrow> read_chunks chunk_size rest sha = sha @ rest"
proof (induction chunk_size rest sha rule: read_chunks.induct)
  case (1 chunk_size rest sha)
  show ?case
  proof (cases "f_read chunk_size rest = []")
    case True
    with "1.prems" have "rest = []" by (simp add: f_read_empty)
    with True show ?thesis by (subst read_chunks.simps) simp
  next
    case False
    from "1.IH" [OF refl False "1.prems"]
    have "read_chunks chunk_size (drop (length (f_read chunk_size rest)) rest)
            (sha @ f_read chunk_size rest)
          = sha @ (f_read chunk_size rest @ drop (length (f_read chunk_size rest)) rest)"
      by simp
    also have "\<dots> = sha @ rest" by (simp only: f_read_split)
    finally show ?thesis using False
      by (subst read_chunks.simps) (simp add: Let_def)
  qed
qed

lemma read_chunks_zero: "read_chunks 0 rest sha = sha"
  by (subst read_chunks.simps) (simp add: f_read_def)

lemma hex_digit_mem: "hex_digit n \<in> set ''0123456789abcdef''"
proof -
  have "n mod 16 < length ''0123456789abcdef''" by simp
  then show ?thesis unfolding hex_digit_def by (rule nth_mem)
qed

lemma hex32_length [simp]: "length (hex32 w) = 8"
  by (simp add: hex32_def)

lemma hex32_chars: "set (hex32 w) \<subseteq> set ''0123456789abcdef''"
proof
  fix c assume "c \<in> set (hex32 w)"
  then obtain n where "c = hex_digit n" unfolding hex32_def by auto
  then show "c \<in> set ''0123456789abcdef''" by (simp only: hex_digit_mem)
qed

lemma sha_state_cases:
  obtains a b c d e f g h where "(st :: sha_state) = (a, b, c, d, e, f, g, h)"
  by (cases st) auto

lemma hexdigest_length: "length (hexdigest msg) = 64"
proof -
  obtain a b c d e f g h where "sha256 msg = (a, b, c, d, e, f, g, h)"
    by (rule sha_state_cases)
  then show ?thesis by (simp add: hexdigest_def)
qed

lemma hexdigest_chars: "set (hexdigest msg) \<subseteq> set ''0123456789abcdef''"
proof -
  define H where "H = set ''0123456789abcdef''"
  have h: "set (hex32 w) \<subseteq> H" for w unfolding H_def by (rule hex32_chars)
  obtain a b c d e f g h where "sha256 msg = (a, b, c, d, e, f, g, h)"
    by (rule sha_state_cases)
  then have "set (hexdigest msg) = set (hex32 a) \<union> set (hex32 b) \<union> set (hex32 c)
      \<union> set (hex32 d) \<union> set (hex32 e) \<union> set (hex32 f) \<union> set (hex32 g) \<union> set (hex32 h)"
    by (simp add: hexdigest_def Un_assoc)
  also have "\<dots> \<subseteq> H"
    using h [of a] h [of b] h [of c] h [of d] h [of e] h [of f] h [of g] h [of h] by blast
  finally show ?thesis unfolding H_def .
qed

subsection \<open>The thumbnail and the command\<close>

lemma extract_thumbnail_absent:
  "zf ''QuickLook/Thumbnail.png'' = None \<Longrightarrow> extract_thumbnail ev zf path w = (Inr PNone, w)"
  by (simp add: extract_thumbnail_def zip_read_def getinfo_def)

lemma extract_thumbnail_present:
  "zf ''QuickLook/Thumbnail.png'' = Some info \<Longrightarrow>
   extract_thumbnail ev zf path w =
     ((case image_verify ev (file_data info) of
         None \<Rightarrow> Inr (PStr (thumbnail_out_path ev path))
       | Some e \<Rightarrow> Inl e),
      w\<lparr>files := (files w)(thumbnail_out_path ev path \<mapsto> file_data info)\<rparr>)"
  by (simp add: extract_thumbnail_def zip_read_def getinfo_def Let_def split: option.split)

lemma extract_thumbnail_stdout:
  "stdout (snd (extract_thumbnail ev zf path w)) = stdout w"
  by (cases "zf ''QuickLook/Thumbnail.png''")
     (simp_all add: extract_thumbnail_absent extract_thumbnail_present)

lemma inspect_procreate_failure:
  assumes "fst (inspect_procreate ev path w) = Inl e"
  shows "stdout (snd (inspect_procreate ev path w)) = stdout w"
proof -
  have t: "stdout w1 = stdout w" if "extract_thumbnail ev zf path w = (r, w1)" for zf r w1
    using extract_thumbnail_stdout [of ev zf path w] that by simp
  from assms show ?thesis
    unfolding inspect_procreate_def
    by (auto simp: t print_line_def split: option.splits if_splits sum.splits prod.splits)
qed

lemma parse_keyed_archive:
  assumes "readPlistFromString ev data = Inr (keyed_archive (PDict rootd) others)"
  shows "parse_document_archive ev data zf
     = ebind (resolved_fields ev (PList (PStr ''$null'' # PDict rootd # others)) rootd zf)
         (\<lambda>m. Inr (clamp_dates m))"
  using assms by (simp add: parse_document_archive_def extract_fields_def)

lemma path_suffix_example:
  "map ascii_lower (path_suffix ''/art/Sketch.PROCREATE'') = ''.procreate''"
  by (simp add: path_suffix_def path_name_def suffix_start_def ascii_lower_def)

lemma apple_time_to_unix_whole_seconds:
  assumes "\<bar>i + 978307200\<bar> < 2 ^ 53"
  shows "apple_time_to_unix (PFloat (Finite (of_int i))) = Inr (PInt (i + 978307200))"
proof -
  have "rat_of_int i + 978307200 = rat_of_int (i + 978307200)" by simp
  then have "round_double (rat_of_int i + 978307200) = Finite (rat_of_int (i + 978307200))"
    using round_double_of_int [OF assms] by simp
  then show ?thesis
    by (simp add: apple_time_to_unix_def round_double_offset py_trunc_def)
qed

subsection \<open>Where the thumbnail is written\<close>

lemma show_int_example: "show_int 1700000123 = ''1700000123''"
  by (simp add: show_int_def show_nat.simps dec_digit_def)

lemma path_stem_example: "path_stem ''/art/Sketch.PROCREATE'' = ''Sketch''"
  by (simp add: path_stem_def path_name_def suffix_start_def)

lemma path_name_suffix: "\<exists>xs. q = xs @ path_name q"
proof -
  define P where "P = (\<lambda>c. c \<noteq> CHR ''/'')"
  have "rev (takeWhile P (rev q) @ dropWhile P (rev q)) = q"
    by (simp only: takeWhile_dropWhile_id rev_rev_ident)
  then have "rev (dropWhile P (rev q)) @ rev (takeWhile P (rev q)) = q"
    by (simp only: rev_append)
  then have "q = rev (dropWhile P (rev q)) @ path_name q"
    unfolding path_name_def P_def by simp
  then show ?thesis by blast
qed

lemma path_suffix_suffix: "\<exists>xs. q = xs @ path_suffix q"
proof -
  obtain xs where q: "q = xs @ path_name q" using path_name_suffix by blast
  show ?thesis
  proof (cases "suffix_start (path_name q)")
    case None
    then have "path_suffix q = []" by (simp add: path_suffix_def)
    then show ?thesis by simp
  next
    case (Some i)
    then have s: "path_suffix q = drop i (path_name q)" by (simp add: path_suffix_def)
    have "path_name q = take i (path_name q) @ drop i (path_name q)" by simp
    with q have "q = xs @ take i (path_name q) @ drop i (path_name q)" by simp
    then have "q = (xs @ take i (path_name q)) @ path_suffix q" by (simp only: s append_assoc)
    then show ?thesis by blast
  qed
qed

lemma thumbnail_out_path_png: "\<exists>ys. thumbnail_out_path ev path = ys @ ''.png''"
proof -
  have "thumbnail_out_path ev path
      = (temp_dir ev @ ''/'' @ path_stem path @ ''_'' @ show_int (now ev)) @ ''.png''"
    unfolding thumbnail_out_path_def by (simp only: append_assoc)
  then show ?thesis by blast
qed

lemma drop_suffix_of_suffix:
  assumes "q = xs @ sfx" "length sfx = 10"
  shows "drop (length q - 4) q = drop 6 sfx"
proof -
  have "length q - 4 = length xs + 6" using assms by simp
  then show ?thesis using assms(1) by simp
qed

lemma thumbnail_out_path_not_procreate:
  assumes "map ascii_lower (path_suffix q) = ''.procreate''"
  shows "thumbnail_out_path ev path \<noteq> q"
proof
  assume eq: "thumbnail_out_path ev path = q"
  obtain ys where ys: "q = ys @ ''.png''" using thumbnail_out_path_png [of ev path] eq by auto
  obtain xs where xs: "q = xs @ path_suffix q" using path_suffix_suffix by blast
  have "length (map ascii_lower (path_suffix q)) = length ''.procreate''"
    by (simp only: assms)
  then have len: "length (path_suffix q) = 10" by simp
  have "drop (length q - 4) q = ''.png''" by (subst (2) ys, subst ys) simp
  moreover have "drop (length q - 4) q = drop 6 (path_suffix q)"
    using xs len by (rule drop_suffix_of_suffix)
  ultimately have "drop 6 (path_suffix q) = ''.png''" by simp
  then have "map ascii_lower (drop 6 (path_suffix q)) = map ascii_lower ''.png''"
    by (rule arg_cong)
  then have "drop 6 (map ascii_lower (path_suffix q)) = map ascii_lower ''.png''"
    by (simp only: drop_map)
  then show False unfolding assms by (simp add: ascii_lower_def)
qed

lemma path_name_no_slash: "CHR ''/'' \<notin> set (path_name p)"
proof -
  have "\<forall>c \<in> set (takeWhile (\<lambda>c. c \<noteq> CHR ''/'') (rev p)). c \<noteq> CHR ''/''"
    by (metis set_takeWhileD)
  then show ?thesis unfolding path_name_def by auto
qed

lemma path_stem_no_slash: "CHR ''/'' \<notin> set (path_stem p)"
proof (cases "suffix_start (path_name p)")
  case None
  then show ?thesis using path_name_no_slash by (simp add: path_stem_def)
next
  case (Some i)
  then have "set (path_stem p) \<subseteq> set (path_name p)"
    by (simp add: path_stem_def set_take_subset)
  then show ?thesis using path_name_no_slash by blast
qed

lemma dec_digit_no_slash: "dec_digit n \<noteq> CHR ''/''"
proof -
  have "n mod 10 < length ''0123456789''" by simp
  then have "dec_digit n \<in> set ''0123456789''" unfolding dec_digit_def by (rule nth_mem)
  then show ?thesis by auto
qed

lemma show_nat_no_slash: "CHR ''/'' \<notin> set (show_nat n)"
proof (induction n rule: show_nat.induct)
  case (1 n)
  show ?case
  proof (cases "n < 10")
    case True
    then show ?thesis using dec_digit_no_slash [of n]
      by (subst show_nat.simps) simp
  next
    case False
    with "1.IH" show ?thesis using dec_digit_no_slash [of "n mod 10"]
      by (subst show_nat.simps) simp
  qed
qed

lemma show_int_no_slash: "CHR ''/'' \<notin> set (show_int i)"
  using show_nat_no_slash by (simp add: show_int_def)

lemma thumbnail_file_name_no_slash:
  "CHR ''/'' \<notin> set (path_stem path @ ''_'' @ show_int (now ev) @ ''.png'')"
  using path_stem_no_slash [of path] show_int_no_slash [of "now ev"] by simp

lemma inspect_procreate_thumbnail_abort:
  assumes "files w path = Some bytes"
      "map ascii_lower (path_suffix path) = ''.procreate''"
      "open_zip ev bytes = Inr zf"
      "zf ''Document.archive'' = Some ainfo"
      "parse_document_archive ev (file_data ainfo) (Some zf) = Inr meta"
      "zf ''QuickLook/Thumbnail.png'' = Some info"
      "image_verify ev (file_data info) = Some e"
  shows "inspect_procreate ev path w
           = (Inl e, w\<lparr>files := (files w)(thumbnail_out_path ev path \<mapsto> file_data info)\<rparr>)"
  using assms
  by (simp add: inspect_procreate_def zip_read_def getinfo_def extract_thumbnail_present)

section \<open>The claims\<close>

subsection \<open>C1: defaults\<close>




subsection \<open>C2: the root must resolve to a record\<close>

text \<open>
  Claim C2: let the archive decode to a property list with the entries \<^verbatim>\<open>$objects\<close> and
  \<^verbatim>\<open>$top\<close> and the root pointer \<^verbatim>\<open>$top["root"]\<close>. When the pointer carries no UID,
  \<^verbatim>\<open>parse_document_archive\<close> raises the \<^verbatim>\<open>RuntimeError\<close> of the root check; when the UID does
  not index the object table, it raises the error of that subscript; when the UID resolves
  to a value that is not a dict, it raises \<^verbatim>\<open>AttributeError\<close> at the first \<^verbatim>\<open>root.get\<close>. These
  are the failures the specification names FormatError. Each holds for every container
  \<open>zf\<close> and leaves no dict of fields: no field was extracted.
\<close>

theorem root_resolution_fails:
  assumes dec: "readPlistFromString ev data = Inr plist"
      and objs: "py_getitem plist (PStr ''$objects'') = Inr objects"
      and top: "py_getitem plist (PStr ''$top'') = Inr tp"
      and ref: "py_getitem tp (PStr ''root'') = Inr root_ref"
  shows "(cfuid root_ref = PNone
            \<longrightarrow> parse_document_archive ev data zf
                  = Inl (RuntimeError ''Could not resolve root UID''))
       \<and> (\<forall>e. cfuid root_ref \<noteq> PNone \<and> py_getitem objects (cfuid root_ref) = Inl e
            \<longrightarrow> parse_document_archive ev data zf = Inl e)
       \<and> (\<forall>rt. cfuid root_ref \<noteq> PNone \<and> py_getitem objects (cfuid root_ref) = Inr rt
               \<and> \<not> is_dict rt
            \<longrightarrow> parse_document_archive ev data zf = Inl AttributeError)"
  using assms
  by (simp add: parse_document_archive_def resolve_root_def extract_fields_not_dict)

text \<open>A root pointer that is a string, a UID beyond the object table, and a UID that
  resolves to the string \<^verbatim>\<open>"$null"\<close>.\<close>

theorem root_resolution_fails_witness:
  "parse_document_archive
     (example_env (PDict [(''$objects'', PList [PStr ''$null'', PDict []]),
                          (''$top'', PDict [(''root'', PStr ''1'')])])) [] None
     = Inl (RuntimeError ''Could not resolve root UID'')
   \<and> parse_document_archive
     (example_env (PDict [(''$objects'', PList [PStr ''$null'', PDict []]),
                          (''$top'', PDict [(''root'', PUid 7)])])) [] None
     = Inl IndexError
   \<and> parse_document_archive
     (example_env (PDict [(''$objects'', PList [PStr ''$null'', PDict []]),
                          (''$top'', PDict [(''root'', PUid 0)])])) [] None
     = Inl AttributeError"
proof -
  define objects where "objects = PList [PStr ''$null'', PDict []]"
  define plist where "plist r = PDict [(''$objects'', objects), (''$top'', PDict [(''root'', r)])]" for r
  have g: "py_getitem (plist r) (PStr ''$objects'') = Inr objects"
    "py_getitem (plist r) (PStr ''$top'') = Inr (PDict [(''root'', r)])"
    "py_getitem (PDict [(''root'', r)]) (PStr ''root'') = Inr r" for r
    by (simp_all add: plist_def)
  have d: "readPlistFromString (example_env (plist r)) [] = Inr (plist r)" for r
    by simp
  have a: "cfuid (PStr ''1'') = PNone" by simp
  have b: "cfuid (PUid 7) \<noteq> PNone \<and> py_getitem objects (cfuid (PUid 7)) = Inl IndexError"
    by (simp add: objects_def seq_get_def)
  have c: "cfuid (PUid 0) \<noteq> PNone \<and> py_getitem objects (cfuid (PUid 0)) = Inr (PStr ''$null'')
      \<and> \<not> is_dict (PStr ''$null'')"
    by (simp add: objects_def seq_get_def)
  from root_resolution_fails [OF d g, of "PStr ''1''" None] a
    root_resolution_fails [OF d g, of "PUid 7" None] b
    root_resolution_fails [OF d g, of "PUid 0" None] c
  show ?thesis unfolding plist_def objects_def by blast
qed

subsection \<open>C3: the canvas size\<close>

text \<open>
  Claim C3 says that every unrecognized shape and every parse failure of the canvas value
  sets \<^verbatim>\<open>canvas_width\<close> and \<^verbatim>\<open>canvas_height\<close> to 0, so that both are always in the result.
  The \<^verbatim>\<open>else\<close> branch and the \<^verbatim>\<open>except\<close> handler do so, but the \<^verbatim>\<open>if len(parts) == 2\<close> inside
  the \<^verbatim>\<open>try\<close> has no \<^verbatim>\<open>else\<close>: a string without exactly one comma assigns neither field and
  raises nothing. On the root \<^verbatim>\<open>{"size": "100"}\<close> the call returns a dict without
  \<^verbatim>\<open>canvas_width\<close> and without \<^verbatim>\<open>canvas_height\<close>. (The two examples of the claim hold:
  \<open>canvas_dict_example\<close>, \<open>canvas_string_example\<close>.)
\<close>

theorem canvas_string_without_comma:
  "\<exists>meta. parse_document_archive
       (example_env (keyed_archive (PDict [(''size'', PStr ''100'')]) [])) [] None = Inr meta
     \<and> meta ''canvas_width'' = None \<and> meta ''canvas_height'' = None
     \<and> meta ''dpi'' = Some (PInt 0)"
  unfolding parse_example
  by (simp add: stage_defs canvas_value string_defs field_defs clamp_dates_def)

subsection \<open>C4: what \<^verbatim>\<open>cfuid\<close> takes for a reference\<close>

text \<open>
  Claim C4 says that \<^verbatim>\<open>cfuid\<close> never takes an ordinary record that has a \<^verbatim>\<open>"CF$UID"\<close> key
  among other keys for a reference. The code tests \<^verbatim>\<open>"CF$UID" in obj\<close> only: the record
  \<^verbatim>\<open>{"name": "sRGB", "CF$UID": 3}\<close> gives the UID 3, and \<^verbatim>\<open>resolve\<close> follows it into the
  object table.
\<close>

theorem cfuid_record_with_other_keys:
  "cfuid (PDict [(''name'', PStr ''sRGB''), (''CF$UID'', PInt 3)]) = PInt 3
   \<and> resolve (PList [PNone, PNone, PNone, PStr ''x''])
         (PDict [(''name'', PStr ''sRGB''), (''CF$UID'', PInt 3)]) = Inr (PStr ''x'')"
  by (simp add: resolve_def seq_get_def)

text \<open>
  Claim C4, amended: \<^verbatim>\<open>cfuid\<close> returns the carried UID of a native \<^verbatim>\<open>Uid\<close> value, and of
  every record that has the key \<^verbatim>\<open>"CF$UID"\<close>, alone or among other keys, the value stored
  under that key; it returns \<^verbatim>\<open>None\<close> for a record without the key and for every value
  that is neither a record nor a \<^verbatim>\<open>Uid\<close>.
\<close>

theorem cfuid_carried_uid:
  "cfuid (PUid n) = PInt (int n)
   \<and> (map_of d ''CF$UID'' = Some v \<longrightarrow> cfuid (PDict d) = v)
   \<and> (map_of d ''CF$UID'' = None \<longrightarrow> cfuid (PDict d) = PNone)
   \<and> ((\<forall>n. x \<noteq> PUid n) \<and> (\<forall>d. x \<noteq> PDict d) \<longrightarrow> cfuid x = PNone)"
  by (cases x) simp_all

theorem cfuid_carried_uid_witness:
  "cfuid (PUid 5) = PInt 5
   \<and> cfuid (PDict [(''CF$UID'', PInt 7)]) = PInt 7
   \<and> cfuid (PDict [(''CF$UID'', PInt 7), (''name'', PStr ''sRGB'')]) = PInt 7
   \<and> cfuid (PDict [(''name'', PStr ''sRGB'')]) = PNone
   \<and> cfuid (PStr ''CF$UID'') = PNone"
  using cfuid_carried_uid [of 5 "[(''CF$UID'', PInt 7)]" "PInt 7" "PStr ''CF$UID''"]
    cfuid_carried_uid [of 5 "[(''CF$UID'', PInt 7), (''name'', PStr ''sRGB'')]" "PInt 7"
      "PStr ''CF$UID''"]
    cfuid_carried_uid [of 5 "[(''name'', PStr ''sRGB'')]" "PInt 7" "PStr ''CF$UID''"]
  by simp

subsection \<open>C5: which key of a fallback pair is used\<close>

text \<open>
  Claim C5 says that a primary key that is present is the one used, whatever its value,
  0 included. The code chains the lookups with \<^verbatim>\<open>or\<close>, which passes over a value that is
  false: with \<^verbatim>\<open>dpi = 0\<close> and the legacy key at 300 the result holds 300, and with
  \<^verbatim>\<open>timeSpentDrawing = 0\<close> and the legacy key at 60 it holds 60.
\<close>

theorem dpi_zero_falls_back:
  "\<exists>meta. parse_document_archive
       (example_env (keyed_archive
          (PDict [(''dpi'', PInt 0), (''SilicaDocumentArchiveDPIKey'', PInt 300),
                  (''timeSpentDrawing'', PInt 0), (''SilicaDocumentTrackedTimeKey'', PInt 60)])
          []))
       [] None = Inr meta
     \<and> meta ''dpi'' = Some (PInt 300) \<and> meta ''time_spent'' = Some (PInt 60)"
  unfolding parse_example
  by (simp add: stage_defs field_defs clamp_dates_def)

text \<open>
  Claim C5, amended: the first key whose value is true wins. When the primary key
  (\<^verbatim>\<open>dpi\<close>, \<^verbatim>\<open>timeSpentDrawing\<close>) holds a true value (a number other than 0, a non-empty
  string), the field is \<^verbatim>\<open>int\<close> of that value, whatever the legacy key holds; when the
  primary key is missing or holds a false value such as 0, the field is \<^verbatim>\<open>int\<close> of the
  legacy key's value if that is true, and 0 otherwise.
\<close>

theorem first_truthy_key_wins:
  assumes dec: "readPlistFromString ev data = Inr plist"
      and rt: "resolve_root plist = Inr (objects, PDict rootd)"
      and ret: "parse_document_archive ev data zf = Inr meta"
  shows "(py_truthy (dict_get rootd ''dpi'')
            \<longrightarrow> (\<exists>i. py_int (dict_get rootd ''dpi'') = Inr i \<and> meta ''dpi'' = Some (PInt i)))
       \<and> (\<not> py_truthy (dict_get rootd ''dpi'')
            \<longrightarrow> (\<exists>i. int_if_truthy (dict_get rootd ''SilicaDocumentArchiveDPIKey'') = Inr i
                     \<and> meta ''dpi'' = Some (PInt i)))
       \<and> (py_truthy (dict_get rootd ''timeSpentDrawing'')
            \<longrightarrow> (\<exists>i. py_int (dict_get rootd ''timeSpentDrawing'') = Inr i
                     \<and> meta ''time_spent'' = Some (PInt i)))
       \<and> (\<not> py_truthy (dict_get rootd ''timeSpentDrawing'')
            \<longrightarrow> (\<exists>i. int_if_truthy (dict_get rootd ''SilicaDocumentTrackedTimeKey'') = Inr i
                     \<and> meta ''time_spent'' = Some (PInt i)))"
proof -
  from ret have "extract_fields ev objects (PDict rootd) zf = Inr meta"
    by (simp add: parse_document_archive_root [OF dec rt])
  from extract_fields_values [OF this] obtain i t where
    i: "dpi_of rootd = Inr i" "meta ''dpi'' = Some (PInt i)"
    and t: "time_spent_of rootd = Inr t" "meta ''time_spent'' = Some (PInt t)"
    by blast
  from i show ?thesis using t
    by (auto simp: dpi_of_def time_spent_of_def py_or_def int_if_truthy_def)
qed

text \<open>With \<^verbatim>\<open>dpi = 72\<close> beside a legacy 300 the result holds 72; with
  \<^verbatim>\<open>timeSpentDrawing = 0\<close> beside a legacy 60 it holds 60.\<close>

theorem first_truthy_key_wins_witness:
  "\<exists>meta. parse_document_archive
       (example_env (keyed_archive
          (PDict [(''dpi'', PInt 72), (''SilicaDocumentArchiveDPIKey'', PInt 300),
                  (''timeSpentDrawing'', PInt 0), (''SilicaDocumentTrackedTimeKey'', PInt 60)])
          []))
       [] None = Inr meta
     \<and> meta ''dpi'' = Some (PInt 72) \<and> meta ''time_spent'' = Some (PInt 60)"
proof -
  define rootd where "rootd = [(''dpi'', PInt 72), (''SilicaDocumentArchiveDPIKey'', PInt 300),
                  (''timeSpentDrawing'', PInt 0), (''SilicaDocumentTrackedTimeKey'', PInt 60)]"
  define ev where "ev = example_env (keyed_archive (PDict rootd) [])"
  have "\<exists>m. resolved_fields ev (PList [PStr ''$null'', PDict rootd]) rootd None = Inr m"
    by (simp add: stage_defs field_defs rootd_def)
  then obtain meta where p: "parse_document_archive ev [] None = Inr meta"
    unfolding ev_def parse_example by (auto simp: ebind_eq_Inr)
  have d: "readPlistFromString ev [] = Inr (keyed_archive (PDict rootd) [])"
    by (simp add: ev_def)
  from first_truthy_key_wins [OF d resolve_root_keyed_archive p]
  have "meta ''dpi'' = Some (PInt 72) \<and> meta ''time_spent'' = Some (PInt 60)"
    by (simp add: rootd_def dict_get_def dict_get_default_def int_if_truthy_def)
  with p show ?thesis unfolding ev_def rootd_def by blast
qed

subsection \<open>C6: the dates are ordered\<close>

text \<open>
  Claim C6: whenever \<^verbatim>\<open>parse_document_archive\<close> returns, the result is the dict \<open>m\<close> that holds
  the resolved fields (the container timestamp substituted), with \<^verbatim>\<open>updated_at\<close> as it is
  in \<open>m\<close> and \<^verbatim>\<open>created_at\<close> lowered to \<^verbatim>\<open>updated_at\<close> when both are ints and
  \<^verbatim>\<open>created_at\<close> is the greater; a \<^verbatim>\<open>None\<close> in either leaves \<^verbatim>\<open>created_at\<close> alone. So in every
  result where neither is \<^verbatim>\<open>None\<close> both are ints and \<^verbatim>\<open>created_at\<close> is at most \<^verbatim>\<open>updated_at\<close>.
\<close>

theorem created_le_updated:
  assumes "parse_document_archive ev data zf = Inr meta"
  shows "(\<exists>plist objects rootd m.
            readPlistFromString ev data = Inr plist
          \<and> resolve_root plist = Inr (objects, PDict rootd)
          \<and> resolved_fields ev objects rootd zf = Inr m
          \<and> meta ''updated_at'' = m ''updated_at''
          \<and> (\<forall>c u. m ''created_at'' = Some (PInt c) \<and> m ''updated_at'' = Some (PInt u)
                 \<longrightarrow> meta ''created_at'' = Some (PInt (if u < c then u else c)))
          \<and> (m ''created_at'' = Some PNone \<or> m ''updated_at'' = Some PNone
                 \<longrightarrow> meta ''created_at'' = m ''created_at''))
       \<and> (meta ''created_at'' \<noteq> Some PNone \<and> meta ''updated_at'' \<noteq> Some PNone
            \<longrightarrow> (\<exists>c u. meta ''created_at'' = Some (PInt c)
                     \<and> meta ''updated_at'' = Some (PInt u) \<and> c \<le> u))"
proof -
  from assms obtain plist objects rootd m where
    p: "readPlistFromString ev data = Inr plist"
       "resolve_root plist = Inr (objects, PDict rootd)"
    and m: "resolved_fields ev objects rootd zf = Inr m"
    and meta: "meta = clamp_dates m"
    by (rule parse_document_archive_Inr)
  have upd: "meta ''updated_at'' = m ''updated_at''"
    unfolding meta by (simp add: clamp_dates_other)
  have ints: "meta ''created_at'' = Some (PInt (if u < c then u else c))"
    if "m ''created_at'' = Some (PInt c)" "m ''updated_at'' = Some (PInt u)" for c u
    unfolding meta using that by (rule clamp_dates_ints)
  have none: "meta ''created_at'' = m ''created_at''"
    if "m ''created_at'' = Some PNone \<or> m ''updated_at'' = Some PNone"
    unfolding meta using that by (simp add: clamp_dates_none)
  have ord: "\<exists>c u. meta ''created_at'' = Some (PInt c)
                     \<and> meta ''updated_at'' = Some (PInt u) \<and> c \<le> u"
    if nn: "meta ''created_at'' \<noteq> Some PNone" "meta ''updated_at'' \<noteq> Some PNone"
  proof -
    from nn(2) upd have u0: "m ''updated_at'' \<noteq> Some PNone" by simp
    with resolved_fields_dates [OF m] obtain u where u: "m ''updated_at'' = Some (PInt u)"
      by blast
    have "m ''created_at'' \<noteq> Some PNone"
    proof
      assume "m ''created_at'' = Some PNone"
      with none nn(1) show False by simp
    qed
    with resolved_fields_dates [OF m] obtain c where c: "m ''created_at'' = Some (PInt c)"
      by blast
    from ints [OF c u] upd u show ?thesis by auto
  qed
  from p m upd ints none ord show ?thesis by blast
qed

text \<open>At \<^verbatim>\<open>creationDate = 100\<close> and \<^verbatim>\<open>lastModifiedDate = 50\<close> the resolved dates are
  \<open>978307300\<close> and \<open>978307250\<close>; the result holds \<open>978307250\<close> in both.\<close>

theorem created_le_updated_witness:
  "\<exists>meta. parse_document_archive
       (example_env (keyed_archive
          (PDict [(''creationDate'', PInt 100), (''lastModifiedDate'', PInt 50)]) []))
       [] None = Inr meta
     \<and> meta ''created_at'' = Some (PInt 978307250)
     \<and> meta ''updated_at'' = Some (PInt 978307250)"
proof -
  define ev where "ev = example_env (keyed_archive
          (PDict [(''creationDate'', PInt 100), (''lastModifiedDate'', PInt 50)]) [])"
  define m where "m = [''canvas_width'' \<mapsto> PInt 0, ''canvas_height'' \<mapsto> PInt 0,
      ''dpi'' \<mapsto> PInt 0, ''orientation'' \<mapsto> PStr ''unknown'',
      ''layer_count'' \<mapsto> PInt 0, ''time_spent'' \<mapsto> PInt 0,
      ''color_profile'' \<mapsto> PNone, ''procreate_version'' \<mapsto> PNone,
      ''created_at'' \<mapsto> PInt 978307300, ''updated_at'' \<mapsto> PInt 978307250]"
  have r: "resolved_fields ev (PList [PStr ''$null'',
             PDict [(''creationDate'', PInt 100), (''lastModifiedDate'', PInt 50)]])
           [(''creationDate'', PInt 100), (''lastModifiedDate'', PInt 50)] None = Inr m"
    unfolding m_def by (simp add: stage_defs field_defs)
  have p: "parse_document_archive ev [] None = Inr (clamp_dates m)"
    unfolding ev_def parse_example using r by (simp add: ev_def)
  have "clamp_dates m ''updated_at'' = Some (PInt 978307250)"
    by (simp add: clamp_dates_def m_def)
  moreover have "clamp_dates m ''created_at'' = Some (PInt 978307250)"
    by (simp add: clamp_dates_def m_def)
  ultimately show ?thesis using created_le_updated [OF p] p unfolding ev_def by blast
qed

subsection \<open>C7: \<^verbatim>\<open>apple_time_to_unix\<close>\<close>


subsection \<open>C8: the thumbnail\<close>

text \<open>
  Claim C8: when the container has no entry \<^verbatim>\<open>QuickLook/Thumbnail.png\<close>, \<^verbatim>\<open>extract_thumbnail\<close>
  returns \<^verbatim>\<open>None\<close> and changes nothing. When the entry is there, its bytes are written to
  the file \<^verbatim>\<open>TEMP_DIR/<stem>_<time>.png\<close> and checked by \<^verbatim>\<open>Image.open(...).verify()\<close>: the
  call returns the path when the check passes and raises the check's exception when it
  fails, the file staying written. In \<^verbatim>\<open>inspect_procreate\<close>, on a container that opens and
  whose archive was parsed, that exception ends the command: nothing is printed, the only
  file changed is the one at that path, and the source file keeps its bytes. The path is
  the temporary directory, a slash, and a file name made of the stem of the source's base
  name, an underscore, the time in whole seconds and \<^verbatim>\<open>.png\<close>; the file name holds no
  slash, so the file lies directly in the temporary directory, and the path is never that
  of a file with the suffix \<^verbatim>\<open>.procreate\<close>.
\<close>

theorem thumbnail_validation:
  "(zf ''QuickLook/Thumbnail.png'' = None
      \<longrightarrow> extract_thumbnail ev zf path w = (Inr PNone, w))
   \<and> (\<forall>info. zf ''QuickLook/Thumbnail.png'' = Some info
      \<longrightarrow> extract_thumbnail ev zf path w =
            ((case image_verify ev (file_data info) of
                None \<Rightarrow> Inr (PStr (thumbnail_out_path ev path))
              | Some e \<Rightarrow> Inl e),
             w\<lparr>files := (files w)(thumbnail_out_path ev path \<mapsto> file_data info)\<rparr>))
   \<and> (\<forall>bytes ainfo meta info e.
         files w path = Some bytes
         \<and> map ascii_lower (path_suffix path) = ''.procreate''
         \<and> open_zip ev bytes = Inr zf
         \<and> zf ''Document.archive'' = Some ainfo
         \<and> parse_document_archive ev (file_data ainfo) (Some zf) = Inr meta
         \<and> zf ''QuickLook/Thumbnail.png'' = Some info
         \<and> image_verify ev (file_data info) = Some e
      \<longrightarrow> fst (inspect_procreate ev path w) = Inl e
          \<and> stdout (snd (inspect_procreate ev path w)) = stdout w
          \<and> files (snd (inspect_procreate ev path w))
              = (files w)(thumbnail_out_path ev path \<mapsto> file_data info)
          \<and> files (snd (inspect_procreate ev path w)) path = Some bytes)
   \<and> thumbnail_out_path ev path
       = temp_dir ev @ ''/'' @ path_stem path @ ''_'' @ show_int (now ev) @ ''.png''
   \<and> CHR ''/'' \<notin> set (path_stem path @ ''_'' @ show_int (now ev) @ ''.png'')
   \<and> (\<forall>q. map ascii_lower (path_suffix q) = ''.procreate''
          \<longrightarrow> thumbnail_out_path ev path \<noteq> q)"
proof -
  have c: "fst (inspect_procreate ev path w) = Inl e
          \<and> stdout (snd (inspect_procreate ev path w)) = stdout w
          \<and> files (snd (inspect_procreate ev path w))
              = (files w)(thumbnail_out_path ev path \<mapsto> file_data info)
          \<and> files (snd (inspect_procreate ev path w)) path = Some bytes"
    if h: "files w path = Some bytes"
         "map ascii_lower (path_suffix path) = ''.procreate''"
         "open_zip ev bytes = Inr zf"
         "zf ''Document.archive'' = Some ainfo"
         "parse_document_archive ev (file_data ainfo) (Some zf) = Inr meta"
         "zf ''QuickLook/Thumbnail.png'' = Some info"
         "image_verify ev (file_data info) = Some e"
    for bytes ainfo meta info e
  proof -
    have i: "inspect_procreate ev path w
           = (Inl e, w\<lparr>files := (files w)(thumbnail_out_path ev path \<mapsto> file_data info)\<rparr>)"
      using h by (rule inspect_procreate_thumbnail_abort)
    have ne: "thumbnail_out_path ev path \<noteq> path"
      using h(2) by (rule thumbnail_out_path_not_procreate)
    show ?thesis unfolding i using ne h(1) by simp
  qed
  have a: "zf ''QuickLook/Thumbnail.png'' = None
      \<longrightarrow> extract_thumbnail ev zf path w = (Inr PNone, w)"
    by (simp add: extract_thumbnail_absent)
  have b: "\<forall>info. zf ''QuickLook/Thumbnail.png'' = Some info
      \<longrightarrow> extract_thumbnail ev zf path w =
            ((case image_verify ev (file_data info) of
                None \<Rightarrow> Inr (PStr (thumbnail_out_path ev path))
              | Some e \<Rightarrow> Inl e),
             w\<lparr>files := (files w)(thumbnail_out_path ev path \<mapsto> file_data info)\<rparr>)"
    by (simp add: extract_thumbnail_present)
  have c': "\<forall>bytes ainfo meta info e.
         files w path = Some bytes
         \<and> map ascii_lower (path_suffix path) = ''.procreate''
         \<and> open_zip ev bytes = Inr zf
         \<and> zf ''Document.archive'' = Some ainfo
         \<and> parse_document_archive ev (file_data ainfo) (Some zf) = Inr meta
         \<and> zf ''QuickLook/Thumbnail.png'' = Some info
         \<and> image_verify ev (file_data info) = Some e
      \<longrightarrow> fst (inspect_procreate ev path w) = Inl e
          \<and> stdout (snd (inspect_procreate ev path w)) = stdout w
          \<and> files (snd (inspect_procreate ev path w))
              = (files w)(thumbnail_out_path ev path \<mapsto> file_data info)
          \<and> files (snd (inspect_procreate ev path w)) path = Some bytes"
    by (intro allI impI, elim conjE) (rule c)
  have d: "thumbnail_out_path ev path
       = temp_dir ev @ ''/'' @ path_stem path @ ''_'' @ show_int (now ev) @ ''.png''"
    by (simp only: thumbnail_out_path_def)
  have e: "CHR ''/'' \<notin> set (path_stem path @ ''_'' @ show_int (now ev) @ ''.png'')"
    by (rule thumbnail_file_name_no_slash)
  have f: "\<forall>q. map ascii_lower (path_suffix q) = ''.procreate''
          \<longrightarrow> thumbnail_out_path ev path \<noteq> q"
    by (intro allI impI) (rule thumbnail_out_path_not_procreate)
  from a b c' d e f show ?thesis by (intro conjI)
qed


theorem thumbnail_validation_witness:
  "extract_thumbnail (example_env PNone) (example_zip False) ''/art/Sketch.PROCREATE''
      \<lparr>files = [''/art/Sketch.PROCREATE'' \<mapsto> ''PK''], stdout = []\<rparr>
     = (Inr PNone, \<lparr>files = [''/art/Sketch.PROCREATE'' \<mapsto> ''PK''], stdout = []\<rparr>)
   \<and> extract_thumbnail (example_env PNone) (example_zip True) ''/art/Sketch.PROCREATE''
      \<lparr>files = [''/art/Sketch.PROCREATE'' \<mapsto> ''PK''], stdout = []\<rparr>
     = (Inr (PStr ''/tmp/procreate_meta/Sketch_1700000123.png''),
        \<lparr>files = [''/art/Sketch.PROCREATE'' \<mapsto> ''PK'',
                  ''/tmp/procreate_meta/Sketch_1700000123.png'' \<mapsto> ''png''],
         stdout = []\<rparr>)
   \<and> fst (inspect_procreate
        ((example_env (keyed_archive (PDict []) []))
           \<lparr>open_zip := \<lambda>bytes. Inr (example_zip True),
            image_verify := \<lambda>bytes. Some (LibraryError ''UnidentifiedImageError'')\<rparr>)
        ''/art/Sketch.PROCREATE''
        \<lparr>files = [''/art/Sketch.PROCREATE'' \<mapsto> ''PK''], stdout = []\<rparr>)
     = Inl (LibraryError ''UnidentifiedImageError'')
   \<and> snd (inspect_procreate
        ((example_env (keyed_archive (PDict []) []))
           \<lparr>open_zip := \<lambda>bytes. Inr (example_zip True),
            image_verify := \<lambda>bytes. Some (LibraryError ''UnidentifiedImageError'')\<rparr>)
        ''/art/Sketch.PROCREATE''
        \<lparr>files = [''/art/Sketch.PROCREATE'' \<mapsto> ''PK''], stdout = []\<rparr>)
     = \<lparr>files = [''/art/Sketch.PROCREATE'' \<mapsto> ''PK'',
                 ''/tmp/procreate_meta/Sketch_1700000123.png'' \<mapsto> ''png''],
        stdout = []\<rparr>"
proof -
  define w where "w = \<lparr>files = [''/art/Sketch.PROCREATE'' \<mapsto> ''PK''], stdout = []\<rparr>"
  define ev where "ev = (example_env (keyed_archive (PDict []) []))
           \<lparr>open_zip := \<lambda>bytes. Inr (example_zip True),
            image_verify := \<lambda>bytes. Some (LibraryError ''UnidentifiedImageError'')\<rparr>"
  define z where "z = example_zip True"
  define src where "src = ''/art/Sketch.PROCREATE''"
  define out where "out = ''/tmp/procreate_meta/Sketch_1700000123.png''"
  have a: "example_zip False ''QuickLook/Thumbnail.png'' = None"
    by (simp add: example_zip_def)
  have ts: "zip_timestamp ev z = Inr (PInt 1706832000)"
    by (simp add: zip_timestamp_def entry_timestamp_def getinfo_def z_def example_zip_def
        ev_def example_env_def)
  have rd: "readPlistFromString ev [] = Inr (keyed_archive (PDict []) [])"
    by (simp add: ev_def example_env_def)
  have "\<exists>m. resolved_fields ev (PList [PStr ''$null'', PDict []]) [] (Some z) = Inr m"
    by (simp add: stage_defs field_defs ts)
  then obtain meta where p: "parse_document_archive ev [] (Some z) = Inr meta"
    unfolding parse_keyed_archive [OF rd] by (auto simp: ebind_eq_Inr)
  have h: "files w src = Some ''PK''"
    "open_zip ev ''PK'' = Inr z"
    "z ''Document.archive'' = Some \<lparr>date_time = (2024, 1, 1, 0, 0, 0), file_data = []\<rparr>"
    "z ''QuickLook/Thumbnail.png''
       = Some \<lparr>date_time = (2024, 2, 2, 0, 0, 0), file_data = ''png''\<rparr>"
    "image_verify ev ''png'' = Some (LibraryError ''UnidentifiedImageError'')"
    by (simp_all add: w_def ev_def z_def src_def example_env_def example_zip_def)
  have sfx: "map ascii_lower (path_suffix src) = ''.procreate''"
    unfolding src_def by (rule path_suffix_example)
  from p have p': "parse_document_archive ev
      (file_data \<lparr>date_time = (2024, 1, 1, 0, 0, 0), file_data = []\<rparr>) (Some z) = Inr meta"
    by simp
  have i: "image_verify ev
      (file_data \<lparr>date_time = (2024, 2, 2, 0, 0, 0), file_data = ''png''\<rparr>)
      = Some (LibraryError ''UnidentifiedImageError'')"
    using h(5) by simp
  have o1: "thumbnail_out_path ev src = out"
    by (simp add: thumbnail_out_path_def src_def out_def ev_def example_env_def
        path_stem_example show_int_example)
  have o2: "thumbnail_out_path (example_env PNone) src = out"
    by (simp add: thumbnail_out_path_def src_def out_def example_env_def
        path_stem_example show_int_example)
  have 1: "extract_thumbnail (example_env PNone) (example_zip False) src w = (Inr PNone, w)"
    using thumbnail_validation [of "example_zip False" "example_env PNone" src w] a by blast
  have t2: "\<forall>info. z ''QuickLook/Thumbnail.png'' = Some info
      \<longrightarrow> extract_thumbnail (example_env PNone) z src w =
            ((case image_verify (example_env PNone) (file_data info) of
                None \<Rightarrow> Inr (PStr (thumbnail_out_path (example_env PNone) src))
              | Some e \<Rightarrow> Inl e),
             w\<lparr>files := (files w)(thumbnail_out_path (example_env PNone) src
                                     \<mapsto> file_data info)\<rparr>)"
    using thumbnail_validation [of z "example_env PNone" src w] by (elim conjE)
  have 2: "extract_thumbnail (example_env PNone) z src w
      = (Inr (PStr out), w\<lparr>files := (files w)(out \<mapsto> ''png'')\<rparr>)"
  proof -
    have v: "image_verify (example_env PNone) ''png'' = None"
      by (simp add: example_env_def)
    show ?thesis
      using t2 [rule_format, OF h(4)] by (simp only: o2 v zip_info.simps option.case)
  qed
  have all: "files w src = Some ''PK''
         \<and> map ascii_lower (path_suffix src) = ''.procreate''
         \<and> open_zip ev ''PK'' = Inr z
         \<and> z ''Document.archive''
             = Some \<lparr>date_time = (2024, 1, 1, 0, 0, 0), file_data = []\<rparr>
         \<and> parse_document_archive ev
               (file_data \<lparr>date_time = (2024, 1, 1, 0, 0, 0), file_data = []\<rparr>) (Some z)
             = Inr meta
         \<and> z ''QuickLook/Thumbnail.png''
             = Some \<lparr>date_time = (2024, 2, 2, 0, 0, 0), file_data = ''png''\<rparr>
         \<and> image_verify ev
               (file_data \<lparr>date_time = (2024, 2, 2, 0, 0, 0), file_data = ''png''\<rparr>)
             = Some (LibraryError ''UnidentifiedImageError'')"
    using h(1) sfx h(2) h(3) p' h(4) i by (intro conjI)
  have t3: "\<forall>bytes ainfo meta info e.
         files w src = Some bytes
         \<and> map ascii_lower (path_suffix src) = ''.procreate''
         \<and> open_zip ev bytes = Inr z
         \<and> z ''Document.archive'' = Some ainfo
         \<and> parse_document_archive ev (file_data ainfo) (Some z) = Inr meta
         \<and> z ''QuickLook/Thumbnail.png'' = Some info
         \<and> image_verify ev (file_data info) = Some e
      \<longrightarrow> fst (inspect_procreate ev src w) = Inl e
          \<and> stdout (snd (inspect_procreate ev src w)) = stdout w
          \<and> files (snd (inspect_procreate ev src w))
              = (files w)(thumbnail_out_path ev src \<mapsto> file_data info)
          \<and> files (snd (inspect_procreate ev src w)) src = Some bytes"
    using thumbnail_validation [of z ev src w] by (elim conjE)
  note r = t3 [rule_format, OF all]
  have 3: "fst (inspect_procreate ev src w) = Inl (LibraryError ''UnidentifiedImageError'')"
    using r by blast
  have "stdout (snd (inspect_procreate ev src w)) = []"
    "files (snd (inspect_procreate ev src w)) = (files w)(out \<mapsto> ''png'')"
    using r by (simp_all add: o1 w_def)
  then have 4: "snd (inspect_procreate ev src w)
      = \<lparr>files = (files w)(out \<mapsto> ''png''), stdout = []\<rparr>"
    by (cases "snd (inspect_procreate ev src w)") simp
  from 1 2 3 4 show ?thesis
    unfolding w_def ev_def z_def src_def out_def by simp
qed

subsection \<open>C9: the content hash\<close>

text \<open>
  Claim C9: on a file that can be read, \<^verbatim>\<open>compute_sha256\<close> returns a text of 64 characters,
  each a lower-case hexadecimal digit, for every chunk size. For a chunk size other than
  0, and so for the default of \<open>1024 * 1024\<close>, the text is the SHA-256 digest of the whole
  content of the file, whatever the size of the chunks it was read in; so two calls on the
  same bytes, of whichever file in whichever world and with whichever chunk sizes, return
  the same digest.
\<close>

theorem compute_sha256_digest:
  assumes "files w path = Some bytes"
  shows "(\<exists>h. compute_sha256 w path chunk_size = Inr h \<and> length h = 64
             \<and> set h \<subseteq> set ''0123456789abcdef'')
       \<and> (chunk_size \<noteq> 0 \<longrightarrow> compute_sha256 w path chunk_size = Inr (hexdigest bytes))
       \<and> compute_sha256 w path default_chunk_size = Inr (hexdigest bytes)
       \<and> (\<forall>w' path' n. files w' path' = Some bytes \<and> chunk_size \<noteq> 0 \<and> n \<noteq> 0
            \<longrightarrow> compute_sha256 w' path' n = compute_sha256 w path chunk_size)"
proof -
  have a: "\<exists>h. compute_sha256 w path chunk_size = Inr h \<and> length h = 64
             \<and> set h \<subseteq> set ''0123456789abcdef''"
  proof -
    have "compute_sha256 w path chunk_size = Inr (hexdigest (read_chunks chunk_size bytes []))"
      using assms by (simp add: compute_sha256_def)
    with hexdigest_length hexdigest_chars show ?thesis by blast
  qed
  have b: "compute_sha256 w' path' n = Inr (hexdigest bytes)"
    if "files w' path' = Some bytes" "n \<noteq> 0" for w' path' n
    using that by (simp add: compute_sha256_def read_chunks_all)
  have "default_chunk_size \<noteq> 0" by (simp add: default_chunk_size_def)
  with assms have c: "compute_sha256 w path default_chunk_size = Inr (hexdigest bytes)"
    by (rule b)
  have d: "compute_sha256 w' path' n = compute_sha256 w path chunk_size"
    if "files w' path' = Some bytes \<and> chunk_size \<noteq> 0 \<and> n \<noteq> 0" for w' path' n
    using that b [OF assms, of chunk_size] b [of w' path' n] by simp
  from a b [OF assms] c d show ?thesis by blast
qed

text \<open>An eleven-byte file read in chunks of four bytes, and a file of the same bytes
  elsewhere read with the default chunk size.\<close>

theorem compute_sha256_digest_witness:
  "compute_sha256 \<lparr>files = [''/art/Sketch.procreate'' \<mapsto> ''PK-abcdefgh''], stdout = []\<rparr>
      ''/art/Sketch.procreate'' 4 = Inr (hexdigest ''PK-abcdefgh'')
   \<and> compute_sha256 \<lparr>files = [''/art/Copy.procreate'' \<mapsto> ''PK-abcdefgh''], stdout = []\<rparr>
      ''/art/Copy.procreate'' default_chunk_size = Inr (hexdigest ''PK-abcdefgh'')
   \<and> length (hexdigest ''PK-abcdefgh'') = 64"
proof -
  define w where "w = \<lparr>files = [''/art/Sketch.procreate'' \<mapsto> ''PK-abcdefgh''], stdout = []\<rparr>"
  define w' where "w' = \<lparr>files = [''/art/Copy.procreate'' \<mapsto> ''PK-abcdefgh''], stdout = []\<rparr>"
  define b where "b = ''PK-abcdefgh''"
  have f: "files w ''/art/Sketch.procreate'' = Some b" by (simp add: w_def b_def)
  have f': "files w' ''/art/Copy.procreate'' = Some b" by (simp add: w'_def b_def)
  have n: "(4::int) \<noteq> 0" by simp
  from compute_sha256_digest [OF f, of 4] n
  have 1: "compute_sha256 w ''/art/Sketch.procreate'' 4 = Inr (hexdigest b)"
    and 3: "length (hexdigest b) = 64" by auto
  from compute_sha256_digest [OF f', of 4]
  have 2: "compute_sha256 w' ''/art/Copy.procreate'' default_chunk_size = Inr (hexdigest b)"
    by blast
  from 1 2 3 show ?thesis unfolding w_def w'_def b_def by blast
qed

subsection \<open>C10: the container timestamp stands in for both dates\<close>

text \<open>
  Claim C10: let the archive decode and its root resolve to a record in which neither
  chain of candidate date keys yields a value (as when the six keys are missing:
  \<open>created_of_missing\<close>, \<open>modified_of_missing\<close>), and let the container give the
  timestamp \<open>t\<close>: that of the entry \<^verbatim>\<open>QuickLook/Thumbnail.png\<close> when it is there, else that
  of \<^verbatim>\<open>Document.archive\<close>. Then every result of \<^verbatim>\<open>parse_document_archive\<close> holds \<open>t\<close> in
  \<^verbatim>\<open>created_at\<close> and in \<^verbatim>\<open>updated_at\<close>.
\<close>

theorem container_timestamp_fallback:
  assumes dec: "readPlistFromString ev data = Inr plist"
      and rt: "resolve_root plist = Inr (objects, PDict rootd)"
      and created: "created_of rootd = PNone"
      and modified: "modified_of rootd = PNone"
      and container:
        "(\<exists>info. z ''QuickLook/Thumbnail.png'' = Some info
               \<and> timestamp ev (date_time info) = Inr t)
         \<or> (z ''QuickLook/Thumbnail.png'' = None
            \<and> (\<exists>info. z ''Document.archive'' = Some info
                  \<and> timestamp ev (date_time info) = Inr t))"
      and ret: "parse_document_archive ev data (Some z) = Inr meta"
  shows "meta ''created_at'' = Some (PInt t) \<and> meta ''updated_at'' = Some (PInt t)"
proof -
  from container have ts: "zip_timestamp ev z = Inr (PInt t)"
    using zip_timestamp_thumbnail zip_timestamp_archive by blast
  from ret have "extract_fields ev objects (PDict rootd) (Some z) = Inr meta"
    by (simp add: parse_document_archive_root [OF dec rt])
  then obtain m where m: "resolved_fields ev objects rootd (Some z) = Inr m"
    and meta: "meta = clamp_dates m"
    by (auto simp: extract_fields_def ebind_eq_Inr)
  from m obtain m1 i orn l tm cp c u where
    c: "apple_time_to_unix (created_of rootd) = Inr c"
    and u: "apple_time_to_unix (modified_of rootd) = Inr u"
    and f: "meta_zip_fallback ev (Some z)
       (m1(''dpi'' \<mapsto> PInt i, ''orientation'' \<mapsto> orn, ''layer_count'' \<mapsto> PInt l,
           ''time_spent'' \<mapsto> PInt tm, ''color_profile'' \<mapsto> cp,
           ''procreate_version'' \<mapsto> procreate_version_of rootd,
           ''created_at'' \<mapsto> c, ''updated_at'' \<mapsto> u)) = Inr m"
    by (rule resolved_fields_Inr_E)
  define m0 where "m0 = m1(''dpi'' \<mapsto> PInt i, ''orientation'' \<mapsto> orn, ''layer_count'' \<mapsto> PInt l,
           ''time_spent'' \<mapsto> PInt tm, ''color_profile'' \<mapsto> cp,
           ''procreate_version'' \<mapsto> procreate_version_of rootd,
           ''created_at'' \<mapsto> c, ''updated_at'' \<mapsto> u)"
  from c created have "c = PNone" by simp
  moreover from u modified have "u = PNone" by simp
  ultimately have m0: "m0 ''created_at'' = Some PNone" "m0 ''updated_at'' = Some PNone"
    by (simp_all add: m0_def)
  from f have "meta_zip_fallback ev (Some z) m0 = Inr m" by (simp only: m0_def)
  with meta_zip_fallback_both_none [OF m0 ts]
  have "m = m0(''created_at'' \<mapsto> PInt t, ''updated_at'' \<mapsto> PInt t)" by simp
  then have "m ''created_at'' = Some (PInt t)" "m ''updated_at'' = Some (PInt t)"
    by simp_all
  then show ?thesis unfolding meta
    by (simp add: clamp_dates_other clamp_dates_ints)
qed

text \<open>On an empty root record and a container with both entries, both dates are the
  thumbnail's timestamp, not the archive's.\<close>

theorem container_timestamp_fallback_witness:
  "\<exists>meta. parse_document_archive (example_env (keyed_archive (PDict []) [])) []
       (Some (example_zip True)) = Inr meta
     \<and> meta ''created_at'' = Some (PInt 1706832000)
     \<and> meta ''updated_at'' = Some (PInt 1706832000)"
proof -
  define ev where "ev = example_env (keyed_archive (PDict []) [])"
  define z where "z = example_zip True"
  have ts: "zip_timestamp ev z = Inr (PInt 1706832000)"
    by (simp add: zip_timestamp_def entry_timestamp_def getinfo_def z_def example_zip_def
        ev_def example_env_def)
  have r: "\<exists>m. resolved_fields ev (PList [PStr ''$null'', PDict []]) [] (Some z) = Inr m"
    by (simp add: stage_defs field_defs ts)
  then obtain meta where p: "parse_document_archive ev [] (Some z) = Inr meta"
    unfolding ev_def parse_example by (auto simp: ebind_eq_Inr)
  have c: "(\<exists>info. z ''QuickLook/Thumbnail.png'' = Some info
               \<and> timestamp ev (date_time info) = Inr 1706832000)
         \<or> (z ''QuickLook/Thumbnail.png'' = None
            \<and> (\<exists>info. z ''Document.archive'' = Some info
                  \<and> timestamp ev (date_time info) = Inr 1706832000))"
    by (simp add: z_def example_zip_def ev_def example_env_def)
  have "readPlistFromString ev [] = Inr (keyed_archive (PDict []) [])"
    by (simp add: ev_def)
  from container_timestamp_fallback [OF this resolve_root_keyed_archive _ _ c p] p
  show ?thesis unfolding ev_def z_def
    by (simp add: created_of_def modified_of_def dict_get_def dict_get_default_def)
qed

end
